theory Spec2Isabelle
  imports Complex_Main
begin

section \<open>Sistema de Controle de Qualidade Industrial\<close>

text \<open>
  A shallow embedding of \<^verbatim>\<open>sistema_qualidade_industrial.py\<close>.

  Python objects are shared by reference: one \<^verbatim>\<open>Peca\<close> object sits in the master
  list, in one derived list and in a box at once, and one \<^verbatim>\<open>Caixa\<close> object is an
  element of \<^verbatim>\<open>caixas\<close> and the value of \<^verbatim>\<open>caixa_atual\<close>. Neither class
  defines \<^verbatim>\<open>__eq__\<close>, so \<^verbatim>\<open>in\<close>, \<^verbatim>\<open>list.remove\<close> and \<^verbatim>\<open>==\<close> compare object
  identities. The model keeps two object stores (lists of objects; a reference is the
  index of the object, allocation appends) and lets every list of the program hold
  references.

  Weights and lengths are Python floats (\<^verbatim>\<open>float(...)\<close> of the user's text): a
  finite value, an infinity or NaN. Rejection reasons and result messages are
  formatted texts; the model keeps the kind of each message and the values formatted
  into it.
\<close>

subsection \<open>Floats\<close>

text \<open>
  A Python float as far as comparisons see it: a finite number (its exact value, a
  real), one of the two infinities, or NaN. \<^verbatim>\<open>float('nan')\<close> and \<^verbatim>\<open>float('inf')\<close>
  are results of \<^verbatim>\<open>float\<close>, so the interactive entry and the batch import can both
  produce them. The thresholds of the quality rules are Python integers; comparing a
  float with an integer compares the exact values.
\<close>

datatype pyfloat = Finito real | MaisInf | MenosInf | NaN

text \<open>\<^verbatim>\<open>x < y\<close> and \<^verbatim>\<open>x > y\<close>: every comparison with NaN is false.\<close>

fun menor :: "pyfloat \<Rightarrow> pyfloat \<Rightarrow> bool" where
  "menor NaN y = False"
| "menor x NaN = False"
| "menor (Finito x) (Finito y) = (x < y)"
| "menor (Finito x) MaisInf = True"
| "menor (Finito x) MenosInf = False"
| "menor MaisInf y = False"
| "menor MenosInf MenosInf = False"
| "menor MenosInf y = True"

definition maior :: "pyfloat \<Rightarrow> pyfloat \<Rightarrow> bool" where
  "maior x y = menor y x"

definition de_int :: "int \<Rightarrow> pyfloat" where
  "de_int n = Finito (of_int n)"

subsection \<open>Strings\<close>

text \<open>\<^verbatim>\<open>str.lower()\<close> on the ASCII letters; every other byte is left as it is.\<close>

definition is_upper :: "char \<Rightarrow> bool" where
  "is_upper c = (65 \<le> (of_char c :: nat) \<and> (of_char c :: nat) \<le> 90)"

definition to_lower :: "char \<Rightarrow> char" where
  "to_lower c = (if is_upper c then char_of ((of_char c :: nat) + 32) else c)"

definition lower :: "string \<Rightarrow> string" where
  "lower s = map to_lower s"

text \<open>
  \<^verbatim>\<open>str.strip()\<close>: the white space of ASCII (space, tab to carriage return, and the
  four separators 28 to 31) is dropped at both ends.
\<close>

definition is_space :: "char \<Rightarrow> bool" where
  "is_space c =
     ((of_char c :: nat) = 32 \<or> (9 \<le> (of_char c :: nat) \<and> (of_char c :: nat) \<le> 13)
      \<or> (28 \<le> (of_char c :: nat) \<and> (of_char c :: nat) \<le> 31))"

definition strip :: "string \<Rightarrow> string" where
  "strip s = rev (dropWhile is_space (rev (dropWhile is_space s)))"

text \<open>
  Equality of two texts up to letter case, stated letter by letter: the spec's
  "case-insensitive" comparison, used to state what the evaluator accepts.
\<close>

definition mesma_letra :: "char \<Rightarrow> char \<Rightarrow> bool" where
  "mesma_letra x y =
     (x = y \<or> (is_upper x \<and> y = to_lower x) \<or> (is_upper y \<and> x = to_lower y))"

definition igual_sem_caixa :: "string \<Rightarrow> string \<Rightarrow> bool" where
  "igual_sem_caixa a b = list_all2 mesma_letra a b"

subsection \<open>Peca\<close>

type_synonym ref = nat

datatype motivo =
    PesoForaDoPadrao pyfloat
  | CorInvalida string
  | ComprimentoForaDoPadrao pyfloat

record Peca =
  id_peca :: int
  peso :: pyfloat
  cor :: string
  comprimento :: pyfloat
  aprovada :: bool
  motivos_reprovacao :: "motivo list"
  caixa :: "int option"

definition Peca_init :: "int \<Rightarrow> pyfloat \<Rightarrow> string \<Rightarrow> pyfloat \<Rightarrow> Peca" where
  "Peca_init i w c l =
     \<lparr> id_peca = i, peso = w, cor = lower c, comprimento = l,
       aprovada = False, motivos_reprovacao = [], caixa = None \<rparr>"

subsection \<open>ControleQualidade\<close>

definition PESO_MIN :: int where "PESO_MIN = 95"
definition PESO_MAX :: int where "PESO_MAX = 105"
definition CORES_VALIDAS :: "string list" where "CORES_VALIDAS = [''azul'', ''verde'']"
definition COMPRIMENTO_MIN :: int where "COMPRIMENTO_MIN = 10"
definition COMPRIMENTO_MAX :: int where "COMPRIMENTO_MAX = 20"

text \<open>
  \<^verbatim>\<open>inspecionar_peca\<close> mutates the part and returns the verdict; the model returns the
  updated part with it. An approved part keeps the (empty) reason list it was created
  with: the source assigns \<^verbatim>\<open>motivos_reprovacao\<close> only on rejection.
\<close>

definition inspecionar_peca :: "Peca \<Rightarrow> Peca \<times> bool" where
  "inspecionar_peca peca =
     (let motivos =
            (if menor (peso peca) (de_int PESO_MIN) \<or> maior (peso peca) (de_int PESO_MAX)
             then [PesoForaDoPadrao (peso peca)] else [])
          @ (if cor peca \<notin> set CORES_VALIDAS
             then [CorInvalida (cor peca)] else [])
          @ (if menor (comprimento peca) (de_int COMPRIMENTO_MIN)
                \<or> maior (comprimento peca) (de_int COMPRIMENTO_MAX)
             then [ComprimentoForaDoPadrao (comprimento peca)] else [])
      in if length motivos = 0
         then (peca\<lparr>aprovada := True\<rparr>, True)
         else (peca\<lparr>aprovada := False, motivos_reprovacao := motivos\<rparr>, False))"

text \<open>
  The three rules in the spec's words, each as a predicate on the raw input. A value
  lies in an interval when it is a finite number between the bounds; an infinity and
  NaN lie in no interval.
\<close>

definition no_intervalo :: "real \<Rightarrow> real \<Rightarrow> pyfloat \<Rightarrow> bool" where
  "no_intervalo a b w = (case w of Finito x \<Rightarrow> a \<le> x \<and> x \<le> b | _ \<Rightarrow> False)"

definition peso_ok :: "pyfloat \<Rightarrow> bool" where
  "peso_ok w = no_intervalo 95 105 w"

definition cor_ok :: "string \<Rightarrow> bool" where
  "cor_ok c = (igual_sem_caixa c ''azul'' \<or> igual_sem_caixa c ''verde'')"

definition comprimento_ok :: "pyfloat \<Rightarrow> bool" where
  "comprimento_ok l = no_intervalo 10 20 l"

definition motivos_esperados :: "pyfloat \<Rightarrow> string \<Rightarrow> pyfloat \<Rightarrow> motivo list" where
  "motivos_esperados w c l =
     map snd (filter (\<lambda>(violada, m). violada)
       [(\<not> peso_ok w, PesoForaDoPadrao w),
        (\<not> cor_ok c, CorInvalida (lower c)),
        (\<not> comprimento_ok l, ComprimentoForaDoPadrao l)])"

subsection \<open>Caixa\<close>

definition CAPACIDADE_MAXIMA :: nat where "CAPACIDADE_MAXIMA = 10"

record Caixa =
  numero :: int
  pecas :: "ref list"
  fechada :: bool

definition Caixa_init :: "int \<Rightarrow> Caixa" where
  "Caixa_init n = \<lparr> numero = n, pecas = [], fechada = False \<rparr>"

definition fechar :: "Caixa \<Rightarrow> Caixa" where
  "fechar cx = cx\<lparr>fechada := True\<rparr>"

definition esta_cheia :: "Caixa \<Rightarrow> bool" where
  "esta_cheia cx = (length (pecas cx) \<ge> CAPACIDADE_MAXIMA)"

definition esta_vazia :: "Caixa \<Rightarrow> bool" where
  "esta_vazia cx = (length (pecas cx) = 0)"

text \<open>
  \<^verbatim>\<open>Caixa.adicionar_peca\<close> and \<^verbatim>\<open>Caixa.remover_peca\<close> mutate the box and the part
  (its \<^verbatim>\<open>caixa\<close> back-reference). The model takes the box object, the reference of
  the part (what the box's list holds) and the part object, and returns both objects
  updated, with the method's result.
\<close>

definition adicionar_peca :: "Caixa \<Rightarrow> ref \<Rightarrow> Peca \<Rightarrow> Caixa \<times> Peca \<times> bool" where
  "adicionar_peca cx r peca =
     (if fechada cx then (cx, peca, False)
      else if length (pecas cx) < CAPACIDADE_MAXIMA then
        (let cx1 = cx\<lparr>pecas := pecas cx @ [r]\<rparr>;
             peca1 = peca\<lparr>caixa := Some (numero cx1)\<rparr>;
             cx2 = (if length (pecas cx1) = CAPACIDADE_MAXIMA then fechar cx1 else cx1)
         in (cx2, peca1, True))
      else (cx, peca, False))"

definition Caixa_remover_peca :: "Caixa \<Rightarrow> ref \<Rightarrow> Peca \<Rightarrow> Caixa \<times> Peca \<times> bool" where
  "Caixa_remover_peca cx r peca =
     (if r \<in> set (pecas cx) then
        (let cx1 = cx\<lparr>pecas := remove1 r (pecas cx)\<rparr>;
             peca1 = peca\<lparr>caixa := None\<rparr>;
             cx2 = (if fechada cx1 then cx1\<lparr>fechada := False\<rparr> else cx1)
         in (cx2, peca1, True))
      else (cx, peca, False))"

subsection \<open>SistemaProducao\<close>

text \<open>
  The ledger: the two object stores, then the six attributes of the class. A new
  object takes the next free index of its store; objects that are no longer referenced
  stay in the store, unreachable.
\<close>

record SistemaProducao =
  mem_pecas :: "Peca list"
  mem_caixas :: "Caixa list"
  pecas_aprovadas :: "ref list"
  pecas_reprovadas :: "ref list"
  todas_pecas :: "ref list"
  caixas :: "ref list"
  caixa_atual :: "ref option"
  proximo_id :: int

definition SistemaProducao_init :: SistemaProducao where
  "SistemaProducao_init =
     \<lparr> mem_pecas = [], mem_caixas = [],
       pecas_aprovadas = [], pecas_reprovadas = [], todas_pecas = [],
       caixas = [], caixa_atual = None, proximo_id = 1 \<rparr>"

definition armazenar_peca :: "SistemaProducao \<Rightarrow> ref \<Rightarrow> SistemaProducao" where
  "armazenar_peca s r =
     (let s1 =
            (if (case caixa_atual s of None \<Rightarrow> True
                 | Some b \<Rightarrow> esta_cheia (mem_caixas s ! b))
             then
               (let nova_caixa = length (mem_caixas s)
                in s\<lparr>mem_caixas := mem_caixas s @ [Caixa_init (int (length (caixas s)) + 1)],
                     caixas := caixas s @ [nova_caixa],
                     caixa_atual := Some nova_caixa\<rparr>)
             else s)
      in case caixa_atual s1 of
           None \<Rightarrow> s1
         | Some b \<Rightarrow>
             (case adicionar_peca (mem_caixas s1 ! b) r (mem_pecas s1 ! r) of
                (cx, peca, ok) \<Rightarrow>
                  s1\<lparr>mem_caixas := (mem_caixas s1)[b := cx],
                      mem_pecas := (mem_pecas s1)[r := peca]\<rparr>))"

text \<open>
  \<^verbatim>\<open>cadastrar_peca\<close> returns the part, the verdict and, for a rejected part, its
  reasons (\<^verbatim>\<open>None\<close> for an approved one); the model returns the new ledger first and
  the part as its reference.
\<close>

definition cadastrar_peca ::
  "SistemaProducao \<Rightarrow> pyfloat \<Rightarrow> string \<Rightarrow> pyfloat
     \<Rightarrow> SistemaProducao \<times> ref \<times> bool \<times> motivo list option" where
  "cadastrar_peca s w c l =
     (let r = length (mem_pecas s);
          s1 = s\<lparr>mem_pecas := mem_pecas s @ [Peca_init (proximo_id s) w c l],
                 todas_pecas := todas_pecas s @ [r],
                 proximo_id := proximo_id s + 1\<rparr>
      in case inspecionar_peca (mem_pecas s1 ! r) of
           (peca, ok) \<Rightarrow>
             (let s2 = s1\<lparr>mem_pecas := (mem_pecas s1)[r := peca]\<rparr>
              in if ok
                 then (armazenar_peca (s2\<lparr>pecas_aprovadas := pecas_aprovadas s2 @ [r]\<rparr>) r,
                       r, True, None)
                 else (s2\<lparr>pecas_reprovadas := pecas_reprovadas s2 @ [r]\<rparr>,
                       r, False, Some (motivos_reprovacao peca))))"

text \<open>
  The search loop of \<^verbatim>\<open>remover_peca\<close> and \<^verbatim>\<open>buscar_peca\<close>: the first part of the
  master list that carries the id.
\<close>

fun buscar_peca :: "Peca list \<Rightarrow> ref list \<Rightarrow> int \<Rightarrow> ref option" where
  "buscar_peca mem [] i = None"
| "buscar_peca mem (r # rs) i =
     (if id_peca (mem ! r) = i then Some r else buscar_peca mem rs i)"

text \<open>
  The loop over \<^verbatim>\<open>self.caixas\<close> in \<^verbatim>\<open>remover_peca\<close>: the first box that holds the
  part gives it up; when that leaves the box empty the box is taken out of the
  sequence, and \<^verbatim>\<open>caixa_atual\<close> is moved if it was that box. The loop ends there
  (\<^verbatim>\<open>break\<close>). The second argument is what is left of the sequence to visit.
\<close>

fun remover_das_caixas :: "SistemaProducao \<Rightarrow> ref list \<Rightarrow> ref \<Rightarrow> SistemaProducao" where
  "remover_das_caixas s [] r = s"
| "remover_das_caixas s (b # bs) r =
     (case Caixa_remover_peca (mem_caixas s ! b) r (mem_pecas s ! r) of
        (cx, peca, removida) \<Rightarrow>
          if removida then
            (let s1 = s\<lparr>mem_caixas := (mem_caixas s)[b := cx],
                        mem_pecas := (mem_pecas s)[r := peca]\<rparr>
             in if esta_vazia (mem_caixas s1 ! b) then
                  (let s2 = s1\<lparr>caixas := remove1 b (caixas s1)\<rparr>
                   in if caixa_atual s2 = Some b
                      then s2\<lparr>caixa_atual :=
                                (if caixas s2 \<noteq> [] then Some (last (caixas s2)) else None)\<rparr>
                      else s2)
                else s1)
          else remover_das_caixas s bs r)"

datatype py_error = ValueError | KeyError string | AttributeError | ZeroDivisionError

datatype mensagem = PecaNaoEncontrada | PecaRemovida

text \<open>
  \<^verbatim>\<open>list.remove\<close> raises \<^verbatim>\<open>ValueError\<close> when the element is not in the list. The
  removal from the master list cannot raise (the part was found there); the removals
  from the derived lists can, and the exception leaves the method: the result is then
  \<open>Inl ValueError\<close>.
\<close>

definition remover_peca ::
  "SistemaProducao \<Rightarrow> int \<Rightarrow> py_error + (SistemaProducao \<times> bool \<times> mensagem)" where
  "remover_peca s i =
     (case buscar_peca (mem_pecas s) (todas_pecas s) i of
        None \<Rightarrow> Inr (s, False, PecaNaoEncontrada)
      | Some r \<Rightarrow>
          (let s1 = s\<lparr>todas_pecas := remove1 r (todas_pecas s)\<rparr>
           in if aprovada (mem_pecas s1 ! r) then
                (if r \<in> set (pecas_aprovadas s1) then
                   (let s2 = s1\<lparr>pecas_aprovadas := remove1 r (pecas_aprovadas s1)\<rparr>
                    in Inr (remover_das_caixas s2 (caixas s2) r, True, PecaRemovida))
                 else Inl ValueError)
              else
                (if r \<in> set (pecas_reprovadas s1) then
                   Inr (s1\<lparr>pecas_reprovadas := remove1 r (pecas_reprovadas s1)\<rparr>,
                        True, PecaRemovida)
                 else Inl ValueError)))"

subsection \<open>Sequences of operations\<close>

text \<open>
  A run of the ledger: registrations and removals in any order. The run returns the
  final ledger and the ids given to the registered parts, in the order of the
  registrations; an exception ends it.
\<close>

datatype operacao = Cadastrar pyfloat string pyfloat | Remover int

fun executar ::
  "SistemaProducao \<Rightarrow> operacao list \<Rightarrow> py_error + (SistemaProducao \<times> int list)" where
  "executar s [] = Inr (s, [])"
| "executar s (Cadastrar w c l # ops) =
     (case cadastrar_peca s w c l of
        (s1, r, ok, motivos) \<Rightarrow>
          (case executar s1 ops of
             Inl e \<Rightarrow> Inl e
           | Inr (s2, ids) \<Rightarrow> Inr (s2, id_peca (mem_pecas s1 ! r) # ids)))"
| "executar s (Remover i # ops) =
     (case remover_peca s i of
        Inl e \<Rightarrow> Inl e
      | Inr (s1, ok, msg) \<Rightarrow> executar s1 ops)"

subsection \<open>Batch import\<close>

text \<open>
  \<^verbatim>\<open>processar_lote_csv\<close> reads the file through \<^verbatim>\<open>csv.DictReader\<close>. The model
  starts from what \<^verbatim>\<open>csv.reader\<close> yields: the list of the file's rows, each a list
  of texts, the header first; \<open>None\<close> stands for a path that does not exist.
  \<^verbatim>\<open>float\<close> is Python's; the model takes the conversion as a parameter \<open>conv\<close>,
  \<open>None\<close> where \<^verbatim>\<open>float\<close> raises \<^verbatim>\<open>ValueError\<close>.

  \<^verbatim>\<open>DictReader\<close> builds the dictionary of a row from \<^verbatim>\<open>zip(fieldnames, row)\<close>,
  gives the value \<^verbatim>\<open>None\<close> to the field names a short row leaves out, and skips
  the rows that are empty lists. (The surplus values of a long row go under the key
  \<^verbatim>\<open>None\<close>, which no text key reads.) A dictionary is a map from keys to values, a
  value being a text or \<^verbatim>\<open>None\<close>.
\<close>

type_synonym linha = "string \<rightharpoonup> string option"

definition DictReader_row :: "string list \<Rightarrow> string list \<Rightarrow> linha" where
  "DictReader_row fieldnames row =
     (let d = fold (\<lambda>(k, v) m. m(k \<mapsto> Some v)) (zip fieldnames row) Map.empty
      in if length fieldnames > length row
         then fold (\<lambda>k m. m(k \<mapsto> None)) (drop (length row) fieldnames) d
         else d)"

text \<open>
  \<^verbatim>\<open>linha[k].strip()\<close>: a missing key raises \<^verbatim>\<open>KeyError\<close>, the value
  \<^verbatim>\<open>None\<close> has no \<^verbatim>\<open>strip\<close> and raises \<^verbatim>\<open>AttributeError\<close>.
\<close>

definition campo :: "linha \<Rightarrow> string \<Rightarrow> py_error + string" where
  "campo l k =
     (case l k of
        None \<Rightarrow> Inl (KeyError k)
      | Some None \<Rightarrow> Inl AttributeError
      | Some (Some v) \<Rightarrow> Inr (strip v))"

definition py_float :: "(string \<Rightarrow> pyfloat option) \<Rightarrow> string \<Rightarrow> py_error + pyfloat" where
  "py_float conv t = (case conv t of None \<Rightarrow> Inl ValueError | Some x \<Rightarrow> Inr x)"

definition extrair_dados ::
  "(string \<Rightarrow> pyfloat option) \<Rightarrow> linha \<Rightarrow> py_error + (pyfloat \<times> string \<times> pyfloat)" where
  "extrair_dados conv l =
     (case campo l ''peso'' of
        Inl e \<Rightarrow> Inl e
      | Inr tp \<Rightarrow>
     (case py_float conv tp of
        Inl e \<Rightarrow> Inl e
      | Inr peso' \<Rightarrow>
     (case campo l ''cor'' of
        Inl e \<Rightarrow> Inl e
      | Inr cor' \<Rightarrow>
     (case campo l ''comprimento'' of
        Inl e \<Rightarrow> Inl e
      | Inr tc \<Rightarrow>
     (case py_float conv tc of
        Inl e \<Rightarrow> Inl e
      | Inr comprimento' \<Rightarrow> Inr (peso', cor', comprimento'))))))"

datatype tipo_erro = DadosInvalidos | ColunaAusente string | ErroInesperado

datatype erro_lote =
    ArquivoNaoEncontrado
  | ColunasNecessarias
  | ErroAoLerArquivo
  | Linha nat tipo_erro

record lote =
  total_processadas :: nat
  aprovadas :: nat
  reprovadas :: nat
  erros :: "erro_lote list"

definition lote_vazio :: lote where
  "lote_vazio = \<lparr> total_processadas = 0, aprovadas = 0, reprovadas = 0, erros = [] \<rparr>"

text \<open>
  The body of the loop, for the row numbered \<open>linha_num\<close>: the three handlers of the
  inner \<^verbatim>\<open>try\<close> turn the exception of the row into one message.
\<close>

definition processar_linha ::
  "(string \<Rightarrow> pyfloat option) \<Rightarrow> nat \<Rightarrow> SistemaProducao \<Rightarrow> lote \<Rightarrow> linha
     \<Rightarrow> SistemaProducao \<times> lote" where
  "processar_linha conv linha_num s acc l =
     (case extrair_dados conv l of
        Inr (peso', cor', comprimento') \<Rightarrow>
          (case cadastrar_peca s peso' cor' comprimento' of
             (s1, r, eh_aprovada, motivos) \<Rightarrow>
               (let acc1 = acc\<lparr>total_processadas := total_processadas acc + 1\<rparr>
                in if eh_aprovada
                   then (s1, acc1\<lparr>aprovadas := aprovadas acc1 + 1\<rparr>)
                   else (s1, acc1\<lparr>reprovadas := reprovadas acc1 + 1\<rparr>)))
      | Inl ValueError \<Rightarrow> (s, acc\<lparr>erros := erros acc @ [Linha linha_num DadosInvalidos]\<rparr>)
      | Inl (KeyError k) \<Rightarrow> (s, acc\<lparr>erros := erros acc @ [Linha linha_num (ColunaAusente k)]\<rparr>)
      | Inl AttributeError \<Rightarrow> (s, acc\<lparr>erros := erros acc @ [Linha linha_num ErroInesperado]\<rparr>))"

fun processar_linhas ::
  "(string \<Rightarrow> pyfloat option) \<Rightarrow> nat \<Rightarrow> SistemaProducao \<Rightarrow> lote \<Rightarrow> linha list
     \<Rightarrow> SistemaProducao \<times> lote" where
  "processar_linhas conv linha_num s acc [] = (s, acc)"
| "processar_linhas conv linha_num s acc (l # ls) =
     (case processar_linha conv linha_num s acc l of
        (s1, acc1) \<Rightarrow> processar_linhas conv (linha_num + 1) s1 acc1 ls)"

definition colunas_necessarias :: "string set" where
  "colunas_necessarias = {''peso'', ''cor'', ''comprimento''}"

text \<open>
  A file with no row at all has no header: \<^verbatim>\<open>fieldnames\<close> is \<^verbatim>\<open>None\<close>, the set
  comprehension over it raises, and the outer handler reports a read error.
\<close>

definition processar_lote_csv ::
  "(string \<Rightarrow> pyfloat option) \<Rightarrow> SistemaProducao \<Rightarrow> string list list option
     \<Rightarrow> SistemaProducao \<times> nat \<times> nat \<times> nat \<times> erro_lote list" where
  "processar_lote_csv conv s arquivo =
     (case arquivo of
        None \<Rightarrow> (s, 0, 0, 0, [ArquivoNaoEncontrado])
      | Some [] \<Rightarrow> (s, 0, 0, 0, [ErroAoLerArquivo])
      | Some (fieldnames # rows) \<Rightarrow>
          (let colunas_arquivo = set (map (\<lambda>col. strip (lower col)) fieldnames)
           in if \<not> colunas_necessarias \<subseteq> colunas_arquivo
              then (s, 0, 0, 0, [ColunasNecessarias])
              else
                (case processar_linhas conv 2 s lote_vazio
                        (map (DictReader_row fieldnames) (filter (\<lambda>row. row \<noteq> []) rows)) of
                   (s1, acc) \<Rightarrow>
                     (s1, total_processadas acc, aprovadas acc, reprovadas acc, erros acc))))"

text \<open>
  A conversion for the examples: an unsigned decimal integer, read digit by digit;
  anything else is rejected.
\<close>

definition digito :: "char \<Rightarrow> nat option" where
  "digito c =
     (if 48 \<le> (of_char c :: nat) \<and> (of_char c :: nat) \<le> 57
      then Some ((of_char c :: nat) - 48) else None)"

fun decimal :: "nat \<Rightarrow> string \<Rightarrow> nat option" where
  "decimal acc [] = Some acc"
| "decimal acc (c # cs) =
     (case digito c of None \<Rightarrow> None | Some d \<Rightarrow> decimal (10 * acc + d) cs)"

definition float_decimal :: "string \<Rightarrow> pyfloat option" where
  "float_decimal t =
     (if t = [] then None else map_option (\<lambda>n. Finito (real n)) (decimal 0 t))"

subsection \<open>Percentual\<close>

text \<open>
  \<^verbatim>\<open>_calcular_percentual\<close> computes \<^verbatim>\<open>round((parte / total) * 100, 1)\<close> in binary64
  arithmetic: the quotient of two integers, the product with 100 and the rounding to
  one decimal are each the double nearest to the exact result, a tie going to the even
  mantissa. A double is kept as a mantissa and an exponent, \<open>(m, e)\<close> for
  \<open>m * 2 ^ e\<close>, with a mantissa of at most 53 bits. The exponent is not bounded in
  the model (no overflow, no subnormal numbers): the callers pass list lengths and
  counters. Dividing by zero raises \<^verbatim>\<open>ZeroDivisionError\<close>.
\<close>

definition round_half_even :: "real \<Rightarrow> int" where
  "round_half_even x =
     (let f = \<lfloor>x\<rfloor>; d = x - of_int f
      in if d < 1 / 2 then f
         else if d > 1 / 2 then f + 1
         else if even f then f else f + 1)"

text \<open>The number of bits of a positive integer.\<close>

function nbits :: "int \<Rightarrow> int" where
  "nbits n = (if n \<le> 0 then 0 else 1 + nbits (n div 2))"
  by pat_completeness auto
termination
  by (relation "measure nat") auto

declare nbits.simps [simp del]

definition pow2 :: "int \<Rightarrow> real" where
  "pow2 e = (if 0 \<le> e then 2 ^ nat e else 1 / 2 ^ nat (- e))"

type_synonym binary64 = "int \<times> int"

definition valor :: "binary64 \<Rightarrow> real" where
  "valor d = of_int (fst d) * pow2 (snd d)"

text \<open>
  The double nearest to \<open>p / q\<close>, for positive \<open>p\<close> and \<open>q\<close>: the exponent is
  chosen so that the scaled quotient lies between \<open>2 ^ 52\<close> and \<open>2 ^ 53\<close>, and the
  scaled quotient is rounded to an integer, half to even.
\<close>

definition mais_proximo :: "int \<Rightarrow> int \<Rightarrow> binary64" where
  "mais_proximo p q =
     (let k = nbits p - nbits q;
          x = of_int p / of_int q;
          e = (if x / pow2 (k - 53) < 2 ^ 53 then k - 53 else k - 52)
      in (round_half_even (x / pow2 e), e))"

definition fl_racional :: "int \<Rightarrow> int \<Rightarrow> binary64" where
  "fl_racional a q =
     (if a = 0 then (0, 0)
      else (case mais_proximo \<bar>a\<bar> q of (m, e) \<Rightarrow> (sgn a * m, e)))"

text \<open>\<^verbatim>\<open>a / b\<close> on integers, \<^verbatim>\<open>x * k\<close> for an integer \<open>k\<close>, and \<^verbatim>\<open>round(x, 1)\<close>,
  which rounds the exact decimal value of \<open>x\<close> (half to even) and returns the double
  nearest to the result.\<close>

definition truediv :: "int \<Rightarrow> int \<Rightarrow> py_error + binary64" where
  "truediv a b =
     (if b = 0 then Inl ZeroDivisionError
      else Inr (fl_racional (a * sgn b) \<bar>b\<bar>))"

definition vezes_int :: "binary64 \<Rightarrow> int \<Rightarrow> binary64" where
  "vezes_int d k =
     (case d of (m, e) \<Rightarrow>
        if 0 \<le> e then fl_racional (k * m * 2 ^ nat e) 1
        else fl_racional (k * m) (2 ^ nat (- e)))"

definition py_round1 :: "binary64 \<Rightarrow> binary64" where
  "py_round1 d = fl_racional (round_half_even (valor d * 10)) 10"

text \<open>
  The result is the number returned: the integer 0 of the guard, or the value of the
  double.
\<close>

definition calcular_percentual :: "int \<Rightarrow> int \<Rightarrow> py_error + real" where
  "calcular_percentual parte total' =
     (if total' = 0 then Inr 0
      else (case truediv parte total' of
              Inl e \<Rightarrow> Inl e
            | Inr x \<Rightarrow> Inr (valor (py_round1 (vezes_int x 100)))))"

subsection \<open>Notions used in the statements\<close>

text \<open>The test of \<^verbatim>\<open>_armazenar_peca\<close>: there is no current box, or it is full.\<close>

definition precisa_nova_caixa :: "SistemaProducao \<Rightarrow> bool" where
  "precisa_nova_caixa s =
     (case caixa_atual s of None \<Rightarrow> True | Some b \<Rightarrow> esta_cheia (mem_caixas s ! b))"

text \<open>The two stores once box \<open>b\<close> has given up part \<open>r\<close>.\<close>

definition apos_retirada :: "SistemaProducao \<Rightarrow> ref \<Rightarrow> ref \<Rightarrow> SistemaProducao" where
  "apos_retirada s b r =
     s\<lparr>mem_caixas := (mem_caixas s)
          [b := (mem_caixas s ! b)
                  \<lparr>pecas := remove1 r (pecas (mem_caixas s ! b)), fechada := False\<rparr>],
       mem_pecas := (mem_pecas s)[r := (mem_pecas s ! r)\<lparr>caixa := None\<rparr>]\<rparr>"

text \<open>
  Registering a list of parts one after the other, with nothing in between; the
  result lists the parts returned, in the order of the registrations.
\<close>

fun cadastrar_todas ::
  "SistemaProducao \<Rightarrow> (pyfloat \<times> string \<times> pyfloat) list \<Rightarrow> SistemaProducao \<times> ref list" where
  "cadastrar_todas s [] = (s, [])"
| "cadastrar_todas s ((w, c, l) # ps) =
     (case cadastrar_peca s w c l of
        (s1, r, ok, motivos) \<Rightarrow>
          (case cadastrar_todas s1 ps of (s2, rs) \<Rightarrow> (s2, r # rs)))"

text \<open>Example ledgers: one approved part; an approved and a rejected part; eleven
  approved parts (a full box and a second box).\<close>

definition ledger_um :: SistemaProducao where
  "ledger_um = fst (cadastrar_peca SistemaProducao_init (Finito 100) ''azul'' (Finito 15))"

definition ledger_exemplo :: SistemaProducao where
  "ledger_exemplo = fst (cadastrar_peca ledger_um (Finito 200) ''Verde'' (Finito 15))"

definition ledger_onze :: SistemaProducao where
  "ledger_onze = fst (cadastrar_todas SistemaProducao_init (replicate 11 (Finito 100, ''azul'', Finito 15)))"

text \<open>
  Coherence of the three part lists: the master list has no part twice, every part of
  it is an object of the store, and it sits in the derived list its approval flag
  names. On a coherent ledger no \<^verbatim>\<open>list.remove\<close> of \<^verbatim>\<open>remover_peca\<close> raises.
\<close>

definition coerente :: "SistemaProducao \<Rightarrow> bool" where
  "coerente s =
     (distinct (todas_pecas s)
      \<and> (\<forall>r\<in>set (todas_pecas s).
            r < length (mem_pecas s)
          \<and> (if aprovada (mem_pecas s ! r) then r \<in> set (pecas_aprovadas s)
             else r \<in> set (pecas_reprovadas s))))"

text \<open>The registrations among the operations of a run.\<close>

definition eh_cadastro :: "operacao \<Rightarrow> bool" where
  "eh_cadastro op = (case op of Cadastrar w c l \<Rightarrow> True | Remover i \<Rightarrow> False)"

text \<open>A triple of attributes that passes the three rules.\<close>

definition aprovavel :: "pyfloat \<times> string \<times> pyfloat \<Rightarrow> bool" where
  "aprovavel p = (case p of (w, c, l) \<Rightarrow> peso_ok w \<and> cor_ok c \<and> comprimento_ok l)"

text \<open>The ledger after \<open>n\<close> approved parts and nothing else, \<open>n\<close> at most ten.\<close>

definition uma_caixa :: "SistemaProducao \<Rightarrow> (pyfloat \<times> string \<times> pyfloat) list \<Rightarrow> bool" where
  "uma_caixa s ps =
     (map (\<lambda>p. (peso p, cor p, comprimento p)) (mem_pecas s)
        = map (\<lambda>(w, c, l). (w, lower c, l)) ps
      \<and> todas_pecas s = [0..<length ps]
      \<and> (if ps = []
         then mem_caixas s = [] \<and> caixas s = [] \<and> caixa_atual s = None
         else length (mem_caixas s) = 1 \<and> caixas s = [0] \<and> caixa_atual s = Some 0
            \<and> pecas (mem_caixas s ! 0) = [0..<length ps]
            \<and> fechada (mem_caixas s ! 0) = (length ps = 10)))"

text \<open>
  A run that empties and deletes the first box while a second one is in use: eleven
  approved parts, the removal of the ten parts of the first box, ten more approved
  parts.
\<close>

definition ops_numero_repetido :: "operacao list" where
  "ops_numero_repetido =
     replicate 11 (Cadastrar (Finito 100) ''azul'' (Finito 15)) @ map Remover [1..10]
     @ replicate 10 (Cadastrar (Finito 100) ''azul'' (Finito 15))"

text \<open>
  A row that has the three fields as texts and whose weight or length is not a number
  for \<open>conv\<close>.
\<close>

definition falha_numerica :: "(string \<Rightarrow> pyfloat option) \<Rightarrow> linha \<Rightarrow> bool" where
  "falha_numerica conv l =
     (case (l ''peso'', l ''cor'', l ''comprimento'') of
        (Some (Some tp), Some (Some tc), Some (Some tcomp)) \<Rightarrow>
          conv (strip tp) = None \<or> conv (strip tcomp) = None
      | _ \<Rightarrow> False)"

section \<open>Properties\<close>

subsection \<open>Case-insensitive comparison\<close>

lemma mesma_letra_minuscula: "\<not> is_upper y \<Longrightarrow> mesma_letra x y \<longleftrightarrow> to_lower x = y"
  by (auto simp: mesma_letra_def to_lower_def)

lemma lower_eq_iff:
  "list_all (\<lambda>y. \<not> is_upper y) a \<Longrightarrow> lower c = a \<longleftrightarrow> igual_sem_caixa c a"
  unfolding lower_def igual_sem_caixa_def
proof (induction c arbitrary: a)
  case Nil
  then show ?case by auto
next
  case (Cons x xs)
  show ?case
  proof (cases a)
    case Nil
    then show ?thesis by simp
  next
    case (Cons y ys)
    with Cons.prems have "\<not> is_upper y" "list_all (\<lambda>y. \<not> is_upper y) ys"
      by simp_all
    with Cons.IH[of ys] Cons show ?thesis
      by (simp add: mesma_letra_minuscula)
  qed
qed

lemma azul_minusculo: "list_all (\<lambda>y. \<not> is_upper y) ''azul''"
  by (simp add: is_upper_def)

lemma verde_minusculo: "list_all (\<lambda>y. \<not> is_upper y) ''verde''"
  by (simp add: is_upper_def)

lemma cor_valida_iff: "lower c \<in> set CORES_VALIDAS \<longleftrightarrow> cor_ok c"
  using lower_eq_iff[OF azul_minusculo, of c] lower_eq_iff[OF verde_minusculo, of c]
  by (auto simp: CORES_VALIDAS_def cor_ok_def)

subsection \<open>The evaluator\<close>

lemma menor_de_int [simp]:
  "menor (Finito x) (de_int n) = (x < of_int n)"
  "menor (de_int n) (Finito x) = (of_int n < x)"
  "menor MaisInf (de_int n) = False" "menor (de_int n) MaisInf = True"
  "menor MenosInf (de_int n) = True" "menor (de_int n) MenosInf = False"
  "menor NaN (de_int n) = False" "menor (de_int n) NaN = False"
  by (simp_all add: de_int_def)

text \<open>
  On every weight and length other than NaN the evaluator does what the rules say: the
  verdict is positive exactly when the weight is in [95, 105], the colour is azul or
  verde up to letter case and the length is in [10, 20]; the approval flag is the
  verdict; the reasons are one per violated rule, in the order weight, colour, length;
  and the verdict is positive exactly when there is no reason.
\<close>

lemma inspecionar_peca_sem_nan:
  assumes "w \<noteq> NaN" "l \<noteq> NaN"
  shows "snd (inspecionar_peca (Peca_init i w c l)) = (peso_ok w \<and> cor_ok c \<and> comprimento_ok l)
   \<and> aprovada (fst (inspecionar_peca (Peca_init i w c l)))
       = snd (inspecionar_peca (Peca_init i w c l))
   \<and> motivos_reprovacao (fst (inspecionar_peca (Peca_init i w c l)))
       = motivos_esperados w c l
   \<and> snd (inspecionar_peca (Peca_init i w c l))
       = (motivos_reprovacao (fst (inspecionar_peca (Peca_init i w c l))) = [])"
  using assms cor_valida_iff[of c]
  by (cases w; cases l)
    (auto simp: inspecionar_peca_def Peca_init_def Let_def peso_ok_def comprimento_ok_def
      no_intervalo_def maior_def motivos_esperados_def
      PESO_MIN_def PESO_MAX_def COMPRIMENTO_MIN_def COMPRIMENTO_MAX_def)

text \<open>
  C1 fails on the code. The range tests are written as
  \<^verbatim>\<open>peso < PESO_MIN or peso > PESO_MAX\<close>; on NaN both comparisons are false, so no
  reason is recorded and the part is approved, although NaN is not in [95, 105] (nor
  in [10, 20], for the length). A part of weight NaN, colour azul and length 15, and a
  part of weight 100, colour azul and length NaN, both pass the inspection, and the
  registration of the first one approves and stores it.
\<close>

theorem nan_aprovado:
  "snd (inspecionar_peca (Peca_init 1 NaN ''azul'' (Finito 15))) = True
   \<and> peso_ok NaN = False
   \<and> snd (inspecionar_peca (Peca_init 1 (Finito 100) ''azul'' NaN)) = True
   \<and> comprimento_ok NaN = False
   \<and> fst (snd (snd (cadastrar_peca SistemaProducao_init NaN ''azul'' (Finito 15)))) = True
   \<and> pecas_aprovadas (fst (cadastrar_peca SistemaProducao_init NaN ''azul'' (Finito 15))) = [0]"
  by code_simp

subsection \<open>Rounding to the nearest double\<close>

text \<open>
  \<open>mais_proximo\<close> is rounding to nearest with 53 bits: the integer it returns is
  within one half of the scaled quotient (a tie going to the even integer, by
  \<open>round_half_even\<close>), it has 53 bits, and so the double is within half a unit of
  the last place of the quotient.
\<close>

lemma round_half_even_perto: "\<bar>of_int (round_half_even y) - y\<bar> \<le> 1 / 2"
  unfolding round_half_even_def Let_def
  by (auto simp: abs_le_iff)

lemma round_half_even_entre:
  assumes "of_int a \<le> y" "y \<le> of_int b"
  shows "a \<le> round_half_even y \<and> round_half_even y \<le> b"
proof -
  have "a \<le> \<lfloor>y\<rfloor>" using assms(1) by (simp add: le_floor_iff)
  moreover have "\<lfloor>y\<rfloor> \<le> round_half_even y"
    by (simp add: round_half_even_def Let_def)
  moreover have "round_half_even y \<le> b"
  proof (cases "y = of_int \<lfloor>y\<rfloor>")
    case True
    then have "round_half_even y = \<lfloor>y\<rfloor>" by (simp add: round_half_even_def Let_def)
    with assms(2) show ?thesis by (simp add: floor_le_iff)
  next
    case False
    moreover have "of_int \<lfloor>y\<rfloor> \<le> y" by (rule of_int_floor_le)
    ultimately have "of_int \<lfloor>y\<rfloor> < y" by linarith
    with assms(2) have "\<lfloor>y\<rfloor> < b" by linarith
    moreover have "round_half_even y \<le> \<lfloor>y\<rfloor> + 1"
      by (simp add: round_half_even_def Let_def)
    ultimately show ?thesis by linarith
  qed
  ultimately show ?thesis by linarith
qed

lemma pow2_pos: "0 < pow2 e"
  by (simp add: pow2_def)

lemma pow2_Suc: "pow2 (e + 1) = 2 * pow2 e"
proof (cases "0 \<le> e")
  case True
  then show ?thesis by (simp add: pow2_def nat_add_distrib)
next
  case False
  then have "nat (- e) = Suc (nat (- (e + 1)))" by simp
  with False show ?thesis by (simp add: pow2_def)
qed

lemma nbits_limites:
  "0 < n \<Longrightarrow> 0 < nbits n \<and> pow2 (nbits n - 1) \<le> of_int n \<and> of_int n < pow2 (nbits n)"
proof (induction n rule: nbits.induct)
  case (1 n)
  show ?case
  proof (cases "n div 2 \<le> 0")
    case True
    with "1.prems" have n1: "n = 1" by linarith
    have "nbits 1 = 1" by (simp add: nbits.simps)
    with n1 show ?thesis by (simp add: pow2_def)
  next
    case False
    then have pos: "0 < n div 2" by simp
    from "1.IH" "1.prems" pos
    have ih: "0 < nbits (n div 2)" "pow2 (nbits (n div 2) - 1) \<le> of_int (n div 2)"
      "of_int (n div 2) < pow2 (nbits (n div 2))"
      by simp_all
    have nb: "nbits n = nbits (n div 2) + 1"
      using "1.prems" by (simp add: nbits.simps[of n])
    have lo: "2 * (n div 2) \<le> n" and hi: "n < 2 * (n div 2) + 2" by linarith+
    from ih(3) have "n div 2 + 1 \<le> \<lceil>pow2 (nbits (n div 2))\<rceil>" by linarith
    have p: "pow2 (nbits (n div 2)) = 2 * pow2 (nbits (n div 2) - 1)"
      using pow2_Suc[of "nbits (n div 2) - 1"] by simp
    have "pow2 (nbits n - 1) \<le> of_int n"
    proof -
      have "2 * pow2 (nbits (n div 2) - 1) \<le> 2 * of_int (n div 2)" using ih(2) by simp
      also have "\<dots> \<le> of_int n" using lo by (metis of_int_le_iff of_int_mult of_int_numeral)
      finally show ?thesis using p nb by simp
    qed
    moreover have "of_int n < pow2 (nbits n)"
    proof -
      have "pow2 (nbits (n div 2)) = of_int (2 ^ nat (nbits (n div 2)))"
        using ih(1) by (simp add: pow2_def)
      with ih(3) have "n div 2 < 2 ^ nat (nbits (n div 2))"
        by (metis of_int_less_iff)
      then have "n div 2 + 1 \<le> 2 ^ nat (nbits (n div 2))" by simp
      with hi have "n < 2 * 2 ^ nat (nbits (n div 2))" by linarith
      then have "(of_int n :: real) < of_int (2 * 2 ^ nat (nbits (n div 2)))"
        by (metis of_int_less_iff)
      also have "\<dots> = 2 * pow2 (nbits (n div 2))"
        using ih(1) by (simp add: pow2_def)
      also have "\<dots> = pow2 (nbits n)"
        using pow2_Suc[of "nbits (n div 2)"] nb by simp
      finally show ?thesis .
    qed
    ultimately show ?thesis using ih(1) nb by simp
  qed
qed


lemma pow2_powr: "pow2 e = 2 powr of_int e"
proof (cases "0 \<le> e")
  case True
  then have "(2::real) powr of_int e = 2 powr real (nat e)" by simp
  also have "\<dots> = 2 ^ nat e" by (rule powr_realpow) simp
  finally show ?thesis using True by (simp add: pow2_def)
next
  case False
  then have "(2::real) powr of_int e = 2 powr - real (nat (- e))" by simp
  also have "\<dots> = 1 / 2 powr real (nat (- e))" by (simp add: powr_minus_divide)
  also have "(2::real) powr real (nat (- e)) = 2 ^ nat (- e)" by (rule powr_realpow) simp
  finally show ?thesis using False by (simp add: pow2_def)
qed

text \<open>The mantissa has 53 bits and the value is within half a unit of the last place.\<close>

lemma mais_proximo_perto:
  assumes "0 < p" "0 < q" "mais_proximo p q = (m, e)"
  shows "2 ^ 52 \<le> m \<and> m \<le> 2 ^ 53
     \<and> \<bar>valor (m, e) - of_int p / of_int q\<bar> \<le> pow2 e / 2"
proof -
  define k where "k = nbits p - nbits q"
  define x :: real where "x = of_int p / of_int q"
  define E where "E = (if x / pow2 (k - 53) < 2 ^ 53 then k - 53 else k - 52)"
  have "mais_proximo p q = (round_half_even (x / pow2 E), E)"
    unfolding mais_proximo_def Let_def k_def x_def E_def by (rule refl)
  with assms(3) have e: "e = E" and m: "m = round_half_even (x / pow2 E)"
    by auto
  from nbits_limites[OF assms(1)] nbits_limites[OF assms(2)]
  have bp: "pow2 (nbits p - 1) \<le> of_int p" "of_int p < pow2 (nbits p)"
    and bq: "pow2 (nbits q - 1) \<le> of_int q" "of_int q < pow2 (nbits q)"
    by simp_all
  have qpos: "(0::real) < of_int q" using assms(2) by simp
  have err: "\<bar>valor (m, e) - x\<bar> \<le> pow2 e / 2"
  proof -
    have "valor (m, e) - x = (of_int m - x / pow2 e) * pow2 e"
      using pow2_pos[of e] by (simp add: valor_def field_simps)
    then have "\<bar>valor (m, e) - x\<bar> = \<bar>of_int m - x / pow2 e\<bar> * pow2 e"
      using pow2_pos[of e] by (simp add: abs_mult)
    also have "\<dots> \<le> (1 / 2) * pow2 e"
      using round_half_even_perto[of "x / pow2 e"] pow2_pos[of e] m e
      by (intro mult_right_mono) simp_all
    finally show ?thesis by simp
  qed
  text \<open>The quotient lies strictly between \<open>2 ^ (k - 1)\<close> and \<open>2 ^ (k + 1)\<close>.\<close>
  have lo: "pow2 (k - 1) < x"
  proof -
    have "pow2 (k - 1) = pow2 (nbits p - 1) / pow2 (nbits q)"
      by (simp add: pow2_powr k_def powr_diff[symmetric] algebra_simps)
    also have "\<dots> \<le> of_int p / pow2 (nbits q)"
      using bp(1) pow2_pos[of "nbits q"] by (simp add: divide_right_mono)
    also have "\<dots> < of_int p / of_int q"
      using bq(2) qpos assms(1) by (simp add: divide_strict_left_mono)
    finally show ?thesis by (simp add: x_def)
  qed
  have hi: "x < pow2 (k + 1)"
  proof -
    have "x < pow2 (nbits p) / of_int q"
      using bp(2) qpos by (simp add: x_def divide_strict_right_mono)
    also have "\<dots> \<le> pow2 (nbits p) / pow2 (nbits q - 1)"
      using bq(1) pow2_pos[of "nbits q - 1"] pow2_pos[of "nbits p"]
      by (simp add: divide_left_mono)
    also have "\<dots> = pow2 (k + 1)"
      by (simp add: pow2_powr k_def powr_diff[symmetric] algebra_simps)
    finally show ?thesis .
  qed
  define y0 where "y0 = x / pow2 (k - 53)"
  have c52: "pow2 (k - 1) / pow2 (k - 53) = 2 ^ 52"
  proof -
    have "pow2 (k - 1) / pow2 (k - 53) = 2 powr (of_int (k - 1) - of_int (k - 53))"
      by (simp only: pow2_powr powr_diff)
    also have "\<dots> = 2 powr real 52" by simp
    also have "\<dots> = 2 ^ 52" by (rule powr_realpow) simp
    finally show ?thesis .
  qed
  have c54: "pow2 (k + 1) / pow2 (k - 53) = 2 ^ 54"
  proof -
    have "pow2 (k + 1) / pow2 (k - 53) = 2 powr (of_int (k + 1) - of_int (k - 53))"
      by (simp only: pow2_powr powr_diff)
    also have "\<dots> = 2 powr real 54" by simp
    also have "\<dots> = 2 ^ 54" by (rule powr_realpow) simp
    finally show ?thesis .
  qed
  have y0: "2 ^ 52 < y0" "y0 < 2 ^ 54"
  proof -
    from lo have "pow2 (k - 1) / pow2 (k - 53) < y0"
      unfolding y0_def using pow2_pos[of "k - 53"] by (simp add: divide_strict_right_mono)
    then show "2 ^ 52 < y0" by (simp only: c52)
    from hi have "y0 < pow2 (k + 1) / pow2 (k - 53)"
      unfolding y0_def using pow2_pos[of "k - 53"] by (simp add: divide_strict_right_mono)
    then show "y0 < 2 ^ 54" by (simp only: c54)
  qed
  have y: "of_int (2 ^ 52) \<le> x / pow2 E \<and> x / pow2 E \<le> of_int (2 ^ 53)"
  proof (cases "y0 < 2 ^ 53")
    case True
    then have "E = k - 53" by (simp add: E_def y0_def)
    with True y0(1) show ?thesis by (simp add: y0_def)
  next
    case False
    then have E: "E = k - 52" by (simp add: E_def y0_def)
    have "pow2 (k - 52) = 2 * pow2 (k - 53)"
      using pow2_Suc[of "k - 53"] by simp
    then have h: "x / pow2 E = y0 / 2" by (simp add: E y0_def)
    from False y0(2) have "2 ^ 52 \<le> y0 / 2 \<and> y0 / 2 \<le> 2 ^ 53" by simp
    then show ?thesis unfolding h by simp
  qed
  from round_half_even_entre[of "2 ^ 52" "x / pow2 E" "2 ^ 53"] y m
  have "2 ^ 52 \<le> m \<and> m \<le> 2 ^ 53" by simp
  with err show ?thesis by (simp add: x_def)
qed

subsection \<open>The percentage helper\<close>

text \<open>The model returns the doubles Python returns, for instance 28.7 at (23, 80), where
  the exact quotient would round to 28.8.\<close>

lemma calcular_percentual_exemplos:
  "calcular_percentual 23 80 = Inr (8078331831595827 / 281474976710656)"
  "calcular_percentual 49 80 = Inr (4313604018090803 / 70368744177664)"
  "calcular_percentual 1 3 = Inr (2343279181116211 / 70368744177664)"
  "calcular_percentual 7 100 = Inr 7"
  "calcular_percentual 1 8 = Inr (25 / 2)"
  by code_simp+

lemma truediv_zero: "truediv a 0 = Inl ZeroDivisionError"
  by (simp add: truediv_def)

text \<open>
  C9. The percentage of 0 in a total of 0 is 0, the percentage of 3 in a total of 10 is
  30, and for a total of 0 the result is 0 whatever the part: the helper returns a
  number, where the division alone raises \<^verbatim>\<open>ZeroDivisionError\<close>.
\<close>

theorem calcular_percentual_valores:
  "calcular_percentual 0 0 = Inr 0
   \<and> calcular_percentual 3 10 = Inr 30
   \<and> (\<forall>parte. calcular_percentual parte 0 = Inr 0)"
proof -
  have "calcular_percentual 3 10 = Inr 30"
    by code_simp
  then show ?thesis
    by (simp add: calcular_percentual_def)
qed

subsection \<open>The example ledgers\<close>

lemma ledger_um_valor:
  "ledger_um =
     \<lparr>mem_pecas = [\<lparr>id_peca = 1, peso = Finito 100, cor = ''azul'', comprimento = Finito 15, aprovada = True, motivos_reprovacao = [], caixa = Some 1\<rparr>],
      mem_caixas = [\<lparr>numero = 1, pecas = [0], fechada = False\<rparr>],
      pecas_aprovadas = [0], pecas_reprovadas = [], todas_pecas = [0],
      caixas = [0], caixa_atual = Some 0, proximo_id = 2\<rparr>"
  by code_simp

lemma ledger_exemplo_valor:
  "ledger_exemplo =
     \<lparr>mem_pecas =
       [\<lparr>id_peca = 1, peso = Finito 100, cor = ''azul'', comprimento = Finito 15, aprovada = True, motivos_reprovacao = [], caixa = Some 1\<rparr>,
        \<lparr>id_peca = 2, peso = Finito 200, cor = ''verde'', comprimento = Finito 15, aprovada = False, motivos_reprovacao = [PesoForaDoPadrao (Finito 200)], caixa = None\<rparr>],
      mem_caixas = [\<lparr>numero = 1, pecas = [0], fechada = False\<rparr>],
      pecas_aprovadas = [0], pecas_reprovadas = [1], todas_pecas = [0, 1],
      caixas = [0], caixa_atual = Some 0, proximo_id = 3\<rparr>"
  by code_simp

lemma ledger_onze_valor:
  "ledger_onze =
     \<lparr>mem_pecas =
       [\<lparr>id_peca = 1, peso = Finito 100, cor = ''azul'', comprimento = Finito 15, aprovada = True, motivos_reprovacao = [], caixa = Some 1\<rparr>,
        \<lparr>id_peca = 2, peso = Finito 100, cor = ''azul'', comprimento = Finito 15, aprovada = True, motivos_reprovacao = [], caixa = Some 1\<rparr>,
        \<lparr>id_peca = 3, peso = Finito 100, cor = ''azul'', comprimento = Finito 15, aprovada = True, motivos_reprovacao = [], caixa = Some 1\<rparr>,
        \<lparr>id_peca = 4, peso = Finito 100, cor = ''azul'', comprimento = Finito 15, aprovada = True, motivos_reprovacao = [], caixa = Some 1\<rparr>,
        \<lparr>id_peca = 5, peso = Finito 100, cor = ''azul'', comprimento = Finito 15, aprovada = True, motivos_reprovacao = [], caixa = Some 1\<rparr>,
        \<lparr>id_peca = 6, peso = Finito 100, cor = ''azul'', comprimento = Finito 15, aprovada = True, motivos_reprovacao = [], caixa = Some 1\<rparr>,
        \<lparr>id_peca = 7, peso = Finito 100, cor = ''azul'', comprimento = Finito 15, aprovada = True, motivos_reprovacao = [], caixa = Some 1\<rparr>,
        \<lparr>id_peca = 8, peso = Finito 100, cor = ''azul'', comprimento = Finito 15, aprovada = True, motivos_reprovacao = [], caixa = Some 1\<rparr>,
        \<lparr>id_peca = 9, peso = Finito 100, cor = ''azul'', comprimento = Finito 15, aprovada = True, motivos_reprovacao = [], caixa = Some 1\<rparr>,
        \<lparr>id_peca = 10, peso = Finito 100, cor = ''azul'', comprimento = Finito 15, aprovada = True, motivos_reprovacao = [], caixa = Some 1\<rparr>,
        \<lparr>id_peca = 11, peso = Finito 100, cor = ''azul'', comprimento = Finito 15, aprovada = True, motivos_reprovacao = [], caixa = Some 2\<rparr>],
      mem_caixas =
       [\<lparr>numero = 1, pecas = [0, 1, 2, 3, 4, 5, 6, 7, 8, 9], fechada = True\<rparr>,
        \<lparr>numero = 2, pecas = [10], fechada = False\<rparr>],
      pecas_aprovadas = [0, 1, 2, 3, 4, 5, 6, 7, 8, 9, 10],
      pecas_reprovadas = [], todas_pecas = [0, 1, 2, 3, 4, 5, 6, 7, 8, 9, 10],
      caixas = [0, 1], caixa_atual = Some 1, proximo_id = 12\<rparr>"
  by code_simp

subsection \<open>Storing an approved part\<close>

lemma armazenar_peca_nova:
  assumes "precisa_nova_caixa s"
  shows "armazenar_peca s r =
     s\<lparr>mem_caixas := mem_caixas s @
           [\<lparr>numero = int (length (caixas s)) + 1, pecas = [r], fechada = False\<rparr>],
       caixas := caixas s @ [length (mem_caixas s)],
       caixa_atual := Some (length (mem_caixas s)),
       mem_pecas := (mem_pecas s)
           [r := (mem_pecas s ! r)\<lparr>caixa := Some (int (length (caixas s)) + 1)\<rparr>]\<rparr>"
  using assms
  by (simp add: precisa_nova_caixa_def armazenar_peca_def adicionar_peca_def Caixa_init_def
      CAPACIDADE_MAXIMA_def Let_def)

lemma armazenar_peca_atual:
  assumes "caixa_atual s = Some b" "\<not> esta_cheia (mem_caixas s ! b)"
  shows "armazenar_peca s r =
     (case adicionar_peca (mem_caixas s ! b) r (mem_pecas s ! r) of
        (cx, peca, ok) \<Rightarrow>
          s\<lparr>mem_caixas := (mem_caixas s)[b := cx], mem_pecas := (mem_pecas s)[r := peca]\<rparr>)"
  using assms by (simp add: armazenar_peca_def)

lemma armazenar_peca_casos:
  obtains (nova) "precisa_nova_caixa s"
  | (atual) b where "caixa_atual s = Some b" "\<not> esta_cheia (mem_caixas s ! b)"
proof (cases "precisa_nova_caixa s")
  case True
  then show ?thesis by (rule nova)
next
  case False
  then show ?thesis
    using atual by (auto simp: precisa_nova_caixa_def split: option.splits)
qed

lemma armazenar_peca_listas:
  "todas_pecas (armazenar_peca s r) = todas_pecas s"
  "pecas_aprovadas (armazenar_peca s r) = pecas_aprovadas s"
  "pecas_reprovadas (armazenar_peca s r) = pecas_reprovadas s"
  "proximo_id (armazenar_peca s r) = proximo_id s"
  "length (mem_pecas (armazenar_peca s r)) = length (mem_pecas s)"
  by (simp_all add: armazenar_peca_def Let_def split: option.splits prod.splits)

lemma armazenar_peca_outras_pecas:
  "p \<noteq> r \<Longrightarrow> mem_pecas (armazenar_peca s r) ! p = mem_pecas s ! p"
  by (simp add: armazenar_peca_def Let_def split: option.splits prod.splits)

lemma armazenar_peca_caixas:
  "caixas (armazenar_peca s r) = caixas s \<and> caixa_atual (armazenar_peca s r) = caixa_atual s
   \<or> caixas (armazenar_peca s r) = caixas s @ [length (mem_caixas s)]
     \<and> caixa_atual (armazenar_peca s r) = Some (length (mem_caixas s))"
  by (simp add: armazenar_peca_def Let_def split: option.splits prod.splits)

lemma armazenar_peca_outras_caixas:
  "b < length (mem_caixas s) \<Longrightarrow> Some b \<noteq> caixa_atual (armazenar_peca s r) \<Longrightarrow>
     mem_caixas (armazenar_peca s r) ! b = mem_caixas s ! b"
  by (auto simp: armazenar_peca_def Let_def nth_append
      split: option.splits prod.splits if_splits)

lemma adicionar_peca_prefixo:
  "adicionar_peca cx r peca = (cx', peca', ok) \<Longrightarrow>
     numero cx' = numero cx \<and> take (length (pecas cx)) (pecas cx') = pecas cx"
  by (auto simp: adicionar_peca_def Let_def fechar_def split: if_splits)

lemma armazenar_peca_prefixo:
  assumes "b < length (mem_caixas s)"
  shows "numero (mem_caixas (armazenar_peca s r) ! b) = numero (mem_caixas s ! b)
     \<and> take (length (pecas (mem_caixas s ! b))) (pecas (mem_caixas (armazenar_peca s r) ! b))
         = pecas (mem_caixas s ! b)"
proof (cases s rule: armazenar_peca_casos)
  case nova
  with assms show ?thesis by (simp add: armazenar_peca_nova nth_append)
next
  case (atual b')
  obtain cx peca ok
    where a: "adicionar_peca (mem_caixas s ! b') r (mem_pecas s ! r) = (cx, peca, ok)"
    by (cases "adicionar_peca (mem_caixas s ! b') r (mem_pecas s ! r)") auto
  show ?thesis
  proof (cases "b' = b")
    case True
    with assms atual a adicionar_peca_prefixo[OF a] show ?thesis
      by (simp add: armazenar_peca_atual)
  next
    case False
    with atual a show ?thesis by (simp add: armazenar_peca_atual)
  qed
qed

subsection \<open>Registration\<close>

lemma cadastrar_peca_aprovada:
  assumes "inspecionar_peca (Peca_init (proximo_id s) w c l) = (peca, True)"
  shows "cadastrar_peca s w c l =
     (armazenar_peca
        (s\<lparr>todas_pecas := todas_pecas s @ [length (mem_pecas s)],
           proximo_id := proximo_id s + 1,
           mem_pecas := mem_pecas s @ [peca],
           pecas_aprovadas := pecas_aprovadas s @ [length (mem_pecas s)]\<rparr>)
        (length (mem_pecas s)),
      length (mem_pecas s), True, None)"
  using assms by (simp add: cadastrar_peca_def Let_def)

lemma cadastrar_peca_reprovada:
  assumes "inspecionar_peca (Peca_init (proximo_id s) w c l) = (peca, False)"
  shows "cadastrar_peca s w c l =
     (s\<lparr>todas_pecas := todas_pecas s @ [length (mem_pecas s)],
        proximo_id := proximo_id s + 1,
        mem_pecas := mem_pecas s @ [peca],
        pecas_reprovadas := pecas_reprovadas s @ [length (mem_pecas s)]\<rparr>,
      length (mem_pecas s), False, Some (motivos_reprovacao peca))"
  using assms by (simp add: cadastrar_peca_def Let_def)

text \<open>
  C10. A registration appends the new part, a fresh object, to the master list and to
  one derived list, the approved list when it passes and the rejected list otherwise,
  and leaves the other derived list as it was. Every part object that existed before
  is unchanged in all its attributes. Every box object other than the current box of
  the resulting ledger (the box that receives the part) is unchanged, no box changes
  its number or loses or reorders a part it held, and the box sequence is either
  unchanged or extended by one new box. A rejected part touches no box at all.
\<close>

theorem cadastrar_peca_frame:
  "case cadastrar_peca s w c l of (s', r, ok, m) \<Rightarrow>
     r = length (mem_pecas s)
   \<and> length (mem_pecas s') = length (mem_pecas s) + 1
   \<and> todas_pecas s' = todas_pecas s @ [r]
   \<and> (if ok
      then pecas_aprovadas s' = pecas_aprovadas s @ [r]
         \<and> pecas_reprovadas s' = pecas_reprovadas s
      else pecas_reprovadas s' = pecas_reprovadas s @ [r]
         \<and> pecas_aprovadas s' = pecas_aprovadas s
         \<and> mem_caixas s' = mem_caixas s \<and> caixas s' = caixas s)
   \<and> (\<forall>p < length (mem_pecas s). mem_pecas s' ! p = mem_pecas s ! p)
   \<and> (\<forall>b < length (mem_caixas s).
         Some b \<noteq> caixa_atual s' \<longrightarrow> mem_caixas s' ! b = mem_caixas s ! b)
   \<and> (\<forall>b < length (mem_caixas s).
         numero (mem_caixas s' ! b) = numero (mem_caixas s ! b)
       \<and> take (length (pecas (mem_caixas s ! b))) (pecas (mem_caixas s' ! b))
           = pecas (mem_caixas s ! b))
   \<and> (caixas s' = caixas s \<or> caixas s' = caixas s @ [length (mem_caixas s)])"
proof (cases "inspecionar_peca (Peca_init (proximo_id s) w c l)")
  case (Pair peca ok)
  show ?thesis
  proof (cases ok)
    case False
    with Pair show ?thesis
      by (simp add: cadastrar_peca_reprovada nth_append)
  next
    case True
    let ?r = "length (mem_pecas s)"
    define s3 where "s3 = s\<lparr>todas_pecas := todas_pecas s @ [length (mem_pecas s)],
           proximo_id := proximo_id s + 1,
           mem_pecas := mem_pecas s @ [peca],
           pecas_aprovadas := pecas_aprovadas s @ [length (mem_pecas s)]\<rparr>"
    from Pair True have eq: "cadastrar_peca s w c l = (armazenar_peca s3 ?r, ?r, True, None)"
      by (simp add: cadastrar_peca_aprovada s3_def)
    have mc: "mem_caixas s3 = mem_caixas s" "caixas s3 = caixas s"
      by (simp_all add: s3_def)
    have "\<forall>p < length (mem_pecas s). mem_pecas (armazenar_peca s3 ?r) ! p = mem_pecas s ! p"
      by (simp add: armazenar_peca_outras_pecas s3_def nth_append)
    moreover have "\<forall>b < length (mem_caixas s).
        Some b \<noteq> caixa_atual (armazenar_peca s3 ?r) \<longrightarrow>
        mem_caixas (armazenar_peca s3 ?r) ! b = mem_caixas s ! b"
      using armazenar_peca_outras_caixas[of _ s3 ?r] mc by simp
    moreover have "\<forall>b < length (mem_caixas s).
        numero (mem_caixas (armazenar_peca s3 ?r) ! b) = numero (mem_caixas s ! b) \<and>
        take (length (pecas (mem_caixas s ! b))) (pecas (mem_caixas (armazenar_peca s3 ?r) ! b))
          = pecas (mem_caixas s ! b)"
      using armazenar_peca_prefixo[of _ s3 ?r] mc by simp
    moreover have "caixas (armazenar_peca s3 ?r) = caixas s
        \<or> caixas (armazenar_peca s3 ?r) = caixas s @ [length (mem_caixas s)]"
      using armazenar_peca_caixas[of s3 ?r] mc by auto
    ultimately show ?thesis
      unfolding eq by (simp add: armazenar_peca_listas s3_def)
  qed
qed

text \<open>
  The frame at the ledger of eleven approved parts, for a twelfth: the part object 3
  and the closed box 0, which is not the current box, are untouched.
\<close>

theorem cadastrar_peca_frame_witness:
  "3 < length (mem_pecas ledger_onze)
   \<and> mem_pecas (fst (cadastrar_peca ledger_onze (Finito 100) ''verde'' (Finito 12))) ! 3
       = mem_pecas ledger_onze ! 3
   \<and> 0 < length (mem_caixas ledger_onze)
   \<and> Some 0 \<noteq> caixa_atual (fst (cadastrar_peca ledger_onze (Finito 100) ''verde'' (Finito 12)))
   \<and> mem_caixas (fst (cadastrar_peca ledger_onze (Finito 100) ''verde'' (Finito 12))) ! 0
       = mem_caixas ledger_onze ! 0
   \<and> todas_pecas (fst (cadastrar_peca ledger_onze (Finito 100) ''verde'' (Finito 12)))
       = todas_pecas ledger_onze @ [11]"
proof -
  have h1: "3 < length (mem_pecas ledger_onze)" "0 < length (mem_caixas ledger_onze)"
    "length (mem_pecas ledger_onze) = 11"
    by (simp_all add: ledger_onze_valor)
  have h2: "Some 0 \<noteq> caixa_atual (fst (cadastrar_peca ledger_onze (Finito 100) ''verde'' (Finito 12)))"
    by code_simp
  from cadastrar_peca_frame[of ledger_onze "Finito 100" "''verde''" "Finito 12"] h1 h2
  show ?thesis
    by (simp add: case_prod_beta)
qed

subsection \<open>Removal\<close>

lemma buscar_peca_None:
  "\<forall>r\<in>set rs. id_peca (mem ! r) \<noteq> i \<Longrightarrow> buscar_peca mem rs i = None"
  by (induction rs) auto

lemma buscar_peca_Some:
  "buscar_peca mem rs i = Some r \<Longrightarrow> r \<in> set rs \<and> id_peca (mem ! r) = i"
  by (induction rs) (auto split: if_splits)

text \<open>
  C6. When no part of the master list carries the id, \<^verbatim>\<open>remover_peca\<close> returns the
  failure "not found" and the ledger it leaves is the ledger it was given: both stores,
  the master list, the two derived lists, the box sequence, the current box and the id
  counter.
\<close>

theorem remover_peca_inexistente:
  "\<forall>r\<in>set (todas_pecas s). id_peca (mem_pecas s ! r) \<noteq> i \<Longrightarrow>
     remover_peca s i = Inr (s, False, PecaNaoEncontrada)"
  by (simp add: remover_peca_def buscar_peca_None)

theorem remover_peca_inexistente_witness:
  "remover_peca ledger_exemplo 7 = Inr (ledger_exemplo, False, PecaNaoEncontrada)"
proof -
  have "\<forall>r\<in>set (todas_pecas ledger_exemplo). id_peca (mem_pecas ledger_exemplo ! r) \<noteq> 7"
    by (simp add: ledger_exemplo_valor)
  then show ?thesis by (rule remover_peca_inexistente)
qed

lemma reabrir_caixa:
  "(if fechada cx then cx\<lparr>fechada := False\<rparr> else cx) = cx\<lparr>fechada := False\<rparr>"
  by (cases cx) simp

lemma remover_das_caixas_pula:
  assumes "\<forall>b'\<in>set pre. r \<notin> set (pecas (mem_caixas s ! b'))"
  shows "remover_das_caixas s (pre @ bs) r = remover_das_caixas s bs r"
  using assms by (induction pre) (simp_all add: Caixa_remover_peca_def)

lemma remover_das_caixas_achou:
  assumes "r \<in> set (pecas (mem_caixas s ! b))" "b < length (mem_caixas s)"
  shows "remover_das_caixas s (b # bs) r =
     (if remove1 r (pecas (mem_caixas s ! b)) = [] then
        (apos_retirada s b r)\<lparr>caixas := remove1 b (caixas s),
           caixa_atual :=
             (if caixa_atual s = Some b
              then (if remove1 b (caixas s) \<noteq> [] then Some (last (remove1 b (caixas s)))
                    else None)
              else caixa_atual s)\<rparr>
      else apos_retirada s b r)"
  using assms
  by (simp add: Caixa_remover_peca_def Let_def esta_vazia_def apos_retirada_def reabrir_caixa)

text \<open>
  C4. Let the id be carried by an approved part \<open>r\<close> of the approved list, and let
  \<open>b\<close> be the first box of the sequence that holds it. Then \<^verbatim>\<open>remover_peca\<close>
  succeeds; afterwards the closed flag of \<open>b\<close> is false (a closed box is reopened) and
  \<open>b\<close> holds one part less, the others in their order. If that leaves \<open>b\<close> empty, \<open>b\<close>
  is taken out of the box sequence, and if \<open>b\<close> was the current box the current box
  becomes the last box of the new sequence, or none when the sequence is empty.
  Otherwise the sequence and the current box are as before.
\<close>

theorem remover_peca_de_caixa:
  assumes busca: "buscar_peca (mem_pecas s) (todas_pecas s) i = Some r"
    and aprov: "aprovada (mem_pecas s ! r)" "r \<in> set (pecas_aprovadas s)"
    and seq: "caixas s = pre @ b # post"
    and pre: "\<forall>b'\<in>set pre. r \<notin> set (pecas (mem_caixas s ! b'))"
    and b: "b < length (mem_caixas s)" "r \<in> set (pecas (mem_caixas s ! b))"
  shows "\<exists>s'. remover_peca s i = Inr (s', True, PecaRemovida)
     \<and> \<not> fechada (mem_caixas s' ! b)
     \<and> pecas (mem_caixas s' ! b) = remove1 r (pecas (mem_caixas s ! b))
     \<and> length (pecas (mem_caixas s' ! b)) + 1 = length (pecas (mem_caixas s ! b))
     \<and> (if pecas (mem_caixas s' ! b) = []
        then caixas s' = remove1 b (caixas s)
           \<and> caixa_atual s' =
               (if caixa_atual s = Some b
                then (if caixas s' = [] then None else Some (last (caixas s')))
                else caixa_atual s)
        else caixas s' = caixas s \<and> caixa_atual s' = caixa_atual s)"
proof -
  define s2 where "s2 = s\<lparr>todas_pecas := remove1 r (todas_pecas s),
                           pecas_aprovadas := remove1 r (pecas_aprovadas s)\<rparr>"
  have s2: "mem_caixas s2 = mem_caixas s" "mem_pecas s2 = mem_pecas s"
    "caixas s2 = caixas s" "caixa_atual s2 = caixa_atual s"
    by (simp_all add: s2_def)
  have r: "remover_peca s i = Inr (remover_das_caixas s2 (caixas s2) r, True, PecaRemovida)"
    using busca aprov by (simp add: remover_peca_def s2_def Let_def)
  have "remover_das_caixas s2 (caixas s2) r = remover_das_caixas s2 (b # post) r"
    using remover_das_caixas_pula[of pre r s2 "b # post"] pre seq s2 by simp
  also have "\<dots> = (if remove1 r (pecas (mem_caixas s2 ! b)) = [] then
        (apos_retirada s2 b r)\<lparr>caixas := remove1 b (caixas s2),
           caixa_atual :=
             (if caixa_atual s2 = Some b
              then (if remove1 b (caixas s2) \<noteq> [] then Some (last (remove1 b (caixas s2)))
                    else None)
              else caixa_atual s2)\<rparr>
      else apos_retirada s2 b r)"
    using b s2 by (intro remover_das_caixas_achou) simp_all
  finally have e: "remover_das_caixas s2 (caixas s2) r =
      (if remove1 r (pecas (mem_caixas s ! b)) = [] then
        (apos_retirada s2 b r)\<lparr>caixas := remove1 b (caixas s),
           caixa_atual :=
             (if caixa_atual s = Some b
              then (if remove1 b (caixas s) \<noteq> [] then Some (last (remove1 b (caixas s)))
                    else None)
              else caixa_atual s)\<rparr>
      else apos_retirada s2 b r)"
    by (simp add: s2)
  have len: "length (remove1 r (pecas (mem_caixas s ! b))) + 1
      = length (pecas (mem_caixas s ! b))"
    using b(2) by (simp add: length_remove1) (metis length_pos_if_in_set Suc_pred)
  show ?thesis
    unfolding r e using b(1) len
    by (auto simp add: apos_retirada_def s2)
qed

text \<open>
  Two removals: part 3 leaves the closed box of the ledger of eleven parts, which is
  reopened with nine parts; the only part of a one-part ledger leaves its box, which
  is deleted, and no current box remains.
\<close>

theorem remover_peca_de_caixa_witness:
  "fechada (mem_caixas ledger_onze ! 0)
   \<and> (\<exists>s'. remover_peca ledger_onze 3 = Inr (s', True, PecaRemovida)
         \<and> \<not> fechada (mem_caixas s' ! 0)
         \<and> pecas (mem_caixas s' ! 0) = [0, 1, 3, 4, 5, 6, 7, 8, 9]
         \<and> caixas s' = [0, 1] \<and> caixa_atual s' = Some 1)
   \<and> caixas ledger_um = [0] \<and> caixa_atual ledger_um = Some 0
   \<and> (\<exists>s'. remover_peca ledger_um 1 = Inr (s', True, PecaRemovida)
         \<and> \<not> fechada (mem_caixas s' ! 0)
         \<and> pecas (mem_caixas s' ! 0) = []
         \<and> caixas s' = [] \<and> caixa_atual s' = None)"
proof -
  have f: "buscar_peca (mem_pecas ledger_onze) (todas_pecas ledger_onze) 3 = Some 2"
    "aprovada (mem_pecas ledger_onze ! 2)"
    "pecas_aprovadas ledger_onze = [0, 1, 2, 3, 4, 5, 6, 7, 8, 9, 10]"
    "caixas ledger_onze = [0, 1]" "caixa_atual ledger_onze = Some 1"
    "length (mem_caixas ledger_onze) = 2"
    "pecas (mem_caixas ledger_onze ! 0) = [0, 1, 2, 3, 4, 5, 6, 7, 8, 9]"
    "fechada (mem_caixas ledger_onze ! 0)"
    by (simp_all add: ledger_onze_valor)
  have g: "buscar_peca (mem_pecas ledger_um) (todas_pecas ledger_um) 1 = Some 0"
    "aprovada (mem_pecas ledger_um ! 0)"
    "pecas_aprovadas ledger_um = [0]"
    "caixas ledger_um = [0]" "caixa_atual ledger_um = Some 0"
    "length (mem_caixas ledger_um) = 1"
    "pecas (mem_caixas ledger_um ! 0) = [0]"
    by (simp_all add: ledger_um_valor)
  have a: "\<exists>s'. remover_peca ledger_onze 3 = Inr (s', True, PecaRemovida)
         \<and> \<not> fechada (mem_caixas s' ! 0)
         \<and> pecas (mem_caixas s' ! 0) = [0, 1, 3, 4, 5, 6, 7, 8, 9]
         \<and> caixas s' = [0, 1] \<and> caixa_atual s' = Some 1"
    using remover_peca_de_caixa[of ledger_onze 3 2 "[]" 0 "[1]"]
    by (simp add: f cong: conj_cong)
  have b: "\<exists>s'. remover_peca ledger_um 1 = Inr (s', True, PecaRemovida)
         \<and> \<not> fechada (mem_caixas s' ! 0)
         \<and> pecas (mem_caixas s' ! 0) = []
         \<and> caixas s' = [] \<and> caixa_atual s' = None"
    using remover_peca_de_caixa[of ledger_um 1 0 "[]" 0 "[]"]
    by (simp add: g cong: conj_cong)
  show ?thesis using a b f(8) g(4,5) by simp
qed

subsection \<open>Identifiers\<close>

lemma map_update_mesmo: "f y = f (xs ! k) \<Longrightarrow> map f (xs[k := y]) = map f xs"
  by (induction xs arbitrary: k) (auto split: nat.splits)

lemma adicionar_peca_atributos:
  "adicionar_peca cx r peca = (cx', peca', ok) \<Longrightarrow>
     aprovada peca' = aprovada peca \<and> id_peca peca' = id_peca peca"
  by (auto simp: adicionar_peca_def Let_def split: if_splits)

lemma armazenar_peca_atributos:
  "map aprovada (mem_pecas (armazenar_peca s r)) = map aprovada (mem_pecas s)
   \<and> map id_peca (mem_pecas (armazenar_peca s r)) = map id_peca (mem_pecas s)"
proof (cases s rule: armazenar_peca_casos)
  case nova
  then show ?thesis by (simp add: armazenar_peca_nova map_update_mesmo)
next
  case (atual b)
  obtain cx peca ok
    where a: "adicionar_peca (mem_caixas s ! b) r (mem_pecas s ! r) = (cx, peca, ok)"
    by (cases "adicionar_peca (mem_caixas s ! b) r (mem_pecas s ! r)") auto
  from atual a adicionar_peca_atributos[OF a] show ?thesis
    by (simp add: armazenar_peca_atual map_update_mesmo)
qed

lemma inspecionar_peca_id: "id_peca (fst (inspecionar_peca p)) = id_peca p"
  by (simp add: inspecionar_peca_def Let_def)

lemma inspecionar_peca_aprovada: "aprovada (fst (inspecionar_peca p)) = snd (inspecionar_peca p)"
  by (simp add: inspecionar_peca_def Let_def)

text \<open>What a registration does to the lists and to the two attribute columns.\<close>

lemma cadastrar_peca_efeito:
  "case cadastrar_peca s w c l of (s', r, ok, m) \<Rightarrow>
     r = length (mem_pecas s)
   \<and> todas_pecas s' = todas_pecas s @ [r]
   \<and> proximo_id s' = proximo_id s + 1
   \<and> map id_peca (mem_pecas s') = map id_peca (mem_pecas s) @ [proximo_id s]
   \<and> map aprovada (mem_pecas s') = map aprovada (mem_pecas s) @ [ok]
   \<and> pecas_aprovadas s' = pecas_aprovadas s @ (if ok then [r] else [])
   \<and> pecas_reprovadas s' = pecas_reprovadas s @ (if ok then [] else [r])"
proof (cases "inspecionar_peca (Peca_init (proximo_id s) w c l)")
  case (Pair peca ok)
  from inspecionar_peca_id[of "Peca_init (proximo_id s) w c l"]
    inspecionar_peca_aprovada[of "Peca_init (proximo_id s) w c l"] Pair
  have p: "id_peca peca = proximo_id s" "aprovada peca = ok"
    by (simp_all add: Peca_init_def)
  show ?thesis
  proof (cases ok)
    case False
    with Pair p show ?thesis by (simp add: cadastrar_peca_reprovada)
  next
    case True
    with Pair p show ?thesis
      by (simp add: cadastrar_peca_aprovada armazenar_peca_listas armazenar_peca_atributos)
  qed
qed

lemma coerente_init: "coerente SistemaProducao_init"
  by (simp add: coerente_def SistemaProducao_init_def)

lemma mesma_coluna:
  "map f xs = map f ys \<Longrightarrow> q < length ys \<Longrightarrow> f (xs ! q) = f (ys ! q)"
  by (metis length_map nth_map)

lemma coerente_cadastrar:
  assumes "coerente s"
  shows "coerente (fst (cadastrar_peca s w c l))"
proof -
  obtain s' r ok m where e: "cadastrar_peca s w c l = (s', r, ok, m)"
    by (cases "cadastrar_peca s w c l") auto
  from cadastrar_peca_efeito[of s w c l] e
  have f: "r = length (mem_pecas s)" "todas_pecas s' = todas_pecas s @ [r]"
    "map aprovada (mem_pecas s') = map aprovada (mem_pecas s) @ [ok]"
    "pecas_aprovadas s' = pecas_aprovadas s @ (if ok then [r] else [])"
    "pecas_reprovadas s' = pecas_reprovadas s @ (if ok then [] else [r])"
    by simp_all
  from f(3) have len: "length (mem_pecas s') = Suc (length (mem_pecas s))"
    by (metis length_map length_append_singleton)
  have ap: "aprovada (mem_pecas s' ! q) = (map aprovada (mem_pecas s) @ [ok]) ! q"
    if "q < Suc (length (mem_pecas s))" for q
    using that len f(3) by (metis nth_map)
  from assms have d: "distinct (todas_pecas s)"
    and a: "\<And>q. q \<in> set (todas_pecas s) \<Longrightarrow> q < length (mem_pecas s)"
    and b: "\<And>q. q \<in> set (todas_pecas s) \<Longrightarrow>
        (if aprovada (mem_pecas s ! q) then q \<in> set (pecas_aprovadas s)
         else q \<in> set (pecas_reprovadas s))"
    by (auto simp: coerente_def)
  have "distinct (todas_pecas s')" using d a f(1,2) by auto
  moreover have "q < length (mem_pecas s') \<and>
      (if aprovada (mem_pecas s' ! q) then q \<in> set (pecas_aprovadas s')
       else q \<in> set (pecas_reprovadas s'))" if "q \<in> set (todas_pecas s')" for q
  proof (cases "q = r")
    case True
    then show ?thesis using ap[of q] f len by (simp add: nth_append)
  next
    case False
    with that f(2) have q: "q \<in> set (todas_pecas s)" by simp
    from a[OF q] b[OF q] ap[of q] show ?thesis
      using f len by (simp add: nth_append split: if_splits)
  qed
  ultimately show ?thesis by (simp add: coerente_def e)
qed


lemma remover_das_caixas_listas:
  "todas_pecas (remover_das_caixas s bs r) = todas_pecas s
   \<and> pecas_aprovadas (remover_das_caixas s bs r) = pecas_aprovadas s
   \<and> pecas_reprovadas (remover_das_caixas s bs r) = pecas_reprovadas s
   \<and> proximo_id (remover_das_caixas s bs r) = proximo_id s
   \<and> length (mem_pecas (remover_das_caixas s bs r)) = length (mem_pecas s)
   \<and> map aprovada (mem_pecas (remover_das_caixas s bs r)) = map aprovada (mem_pecas s)
   \<and> map id_peca (mem_pecas (remover_das_caixas s bs r)) = map id_peca (mem_pecas s)"
  by (induction bs)
    (simp_all add: Caixa_remover_peca_def Let_def map_update_mesmo)

text \<open>On a coherent ledger a removal never raises, and it leaves a coherent ledger
  with the same id counter.\<close>

lemma coerente_remover:
  assumes "coerente s"
  shows "\<exists>s' ok msg. remover_peca s i = Inr (s', ok, msg) \<and> coerente s'
           \<and> proximo_id s' = proximo_id s"
proof (cases "buscar_peca (mem_pecas s) (todas_pecas s) i")
  case None
  with assms show ?thesis by (auto simp: remover_peca_def)
next
  case (Some r)
  from assms have d: "distinct (todas_pecas s)"
    and a: "\<And>q. q \<in> set (todas_pecas s) \<Longrightarrow> q < length (mem_pecas s)"
    and b: "\<And>q. q \<in> set (todas_pecas s) \<Longrightarrow>
        (if aprovada (mem_pecas s ! q) then q \<in> set (pecas_aprovadas s)
         else q \<in> set (pecas_reprovadas s))"
    by (auto simp: coerente_def)
  from buscar_peca_Some[OF Some] have r: "r \<in> set (todas_pecas s)" by simp
  have outros: "q \<noteq> r" if "q \<in> set (remove1 r (todas_pecas s))" for q
    using that d by auto
  show ?thesis
  proof (cases "aprovada (mem_pecas s ! r)")
    case True
    with b[OF r] have m: "r \<in> set (pecas_aprovadas s)" by simp
    define s2 where "s2 = s\<lparr>todas_pecas := remove1 r (todas_pecas s),
                             pecas_aprovadas := remove1 r (pecas_aprovadas s)\<rparr>"
    let ?s' = "remover_das_caixas s2 (caixas s2) r"
    have e: "remover_peca s i = Inr (?s', True, PecaRemovida)"
      using Some True m by (simp add: remover_peca_def s2_def Let_def)
    note l = remover_das_caixas_listas[of s2 "caixas s2" r]
    have ap: "aprovada (mem_pecas ?s' ! q) = aprovada (mem_pecas s ! q)"
      if "q < length (mem_pecas s)" for q
      using mesma_coluna[of aprovada "mem_pecas ?s'" "mem_pecas s" q] l that
      by (simp add: s2_def)
    have "coerente ?s'"
      unfolding coerente_def
    proof (intro conjI ballI)
      show "distinct (todas_pecas ?s')" using l d by (simp add: s2_def)
    next
      fix q assume "q \<in> set (todas_pecas ?s')"
      with l have q: "q \<in> set (remove1 r (todas_pecas s))" by (simp add: s2_def)
      then have q': "q \<in> set (todas_pecas s)" by (metis notin_set_remove1)
      from a[OF q'] l show "q < length (mem_pecas ?s')" by (simp add: s2_def)
      from b[OF q'] outros[OF q] ap[OF a[OF q']] l
      show "if aprovada (mem_pecas ?s' ! q) then q \<in> set (pecas_aprovadas ?s')
            else q \<in> set (pecas_reprovadas ?s')"
        by (simp add: s2_def split: if_splits)
    qed
    moreover have "proximo_id ?s' = proximo_id s" using l by (simp add: s2_def)
    ultimately show ?thesis using e by blast
  next
    case False
    with b[OF r] have m: "r \<in> set (pecas_reprovadas s)" by simp
    let ?s' = "s\<lparr>todas_pecas := remove1 r (todas_pecas s),
                 pecas_reprovadas := remove1 r (pecas_reprovadas s)\<rparr>"
    have e: "remover_peca s i = Inr (?s', True, PecaRemovida)"
      using Some False m by (simp add: remover_peca_def Let_def)
    have "coerente ?s'"
      unfolding coerente_def
    proof (intro conjI ballI)
      show "distinct (todas_pecas ?s')" using d by simp
    next
      fix q assume "q \<in> set (todas_pecas ?s')"
      then have q: "q \<in> set (remove1 r (todas_pecas s))" by simp
      then have q': "q \<in> set (todas_pecas s)" by (metis notin_set_remove1)
      from a[OF q'] show "q < length (mem_pecas ?s')" by simp
      from b[OF q'] outros[OF q]
      show "if aprovada (mem_pecas ?s' ! q) then q \<in> set (pecas_aprovadas ?s')
            else q \<in> set (pecas_reprovadas ?s')"
        by (simp split: if_splits)
    qed
    moreover have "proximo_id ?s' = proximo_id s" by simp
    ultimately show ?thesis using e by blast
  qed
qed

lemma executar_ids:
  assumes "coerente s"
  shows "\<exists>s'. executar s ops =
           Inr (s', [proximo_id s .. proximo_id s + int (length (filter eh_cadastro ops)) - 1])
         \<and> coerente s'"
  using assms
proof (induction ops arbitrary: s)
  case Nil
  then show ?case by simp
next
  case (Cons op ops)
  show ?case
  proof (cases op)
    case (Cadastrar w c l)
    obtain s1 r ok m where e: "cadastrar_peca s w c l = (s1, r, ok, m)"
      by (cases "cadastrar_peca s w c l") auto
    from coerente_cadastrar[OF Cons.prems, of w c l] e have c1: "coerente s1" by simp
    from cadastrar_peca_efeito[of s w c l] e
    have f: "r = length (mem_pecas s)" "proximo_id s1 = proximo_id s + 1"
      "map id_peca (mem_pecas s1) = map id_peca (mem_pecas s) @ [proximo_id s]"
      by simp_all
    from f(3) have "length (mem_pecas s1) = Suc (length (mem_pecas s))"
      by (metis length_map length_append_singleton)
    with f(1,3) have idr: "id_peca (mem_pecas s1 ! r) = proximo_id s"
      by (metis lessI nth_map nth_append_length length_map)
    from Cons.IH[OF c1] obtain s' where
      x: "executar s1 ops =
           Inr (s', [proximo_id s1 .. proximo_id s1 + int (length (filter eh_cadastro ops)) - 1])"
      and c': "coerente s'" by blast
    have "proximo_id s # [proximo_id s + 1 .. proximo_id s + 1 + int (length (filter eh_cadastro ops)) - 1]
        = [proximo_id s .. proximo_id s + int (length (filter eh_cadastro (op # ops))) - 1]"
      using Cadastrar by (simp add: eh_cadastro_def upto_rec1[of "proximo_id s"])
    with x c' e idr f(2) Cadastrar show ?thesis by simp
  next
    case (Remover i)
    from coerente_remover[OF Cons.prems, of i] obtain s1 ok msg where
      e: "remover_peca s i = Inr (s1, ok, msg)" and c1: "coerente s1"
      and p: "proximo_id s1 = proximo_id s" by blast
    from Cons.IH[OF c1] p e Remover show ?thesis
      by (simp add: eh_cadastro_def)
  qed
qed

text \<open>
  C5. Whatever the sequence of registrations and removals run on the empty ledger, the
  run raises nothing, and the ids given to the registered parts are, in the order of
  the registrations, 1, 2, ..., N, where N is the number of registrations: the k-th
  registration gets id k, removals in between change nothing, and no id is given twice.
\<close>

theorem ids_sequenciais:
  "\<exists>s. executar SistemaProducao_init ops =
          Inr (s, [1 .. int (length (filter eh_cadastro ops))])"
proof -
  have "proximo_id SistemaProducao_init = 1"
    by (simp add: SistemaProducao_init_def)
  with executar_ids[OF coerente_init, of ops] show ?thesis
    by auto
qed

subsection \<open>Filling the first box\<close>

lemma inspecionar_peca_aprova:
  assumes "aprovavel (w, c, l)"
  shows "inspecionar_peca (Peca_init i w c l) = ((Peca_init i w c l)\<lparr>aprovada := True\<rparr>, True)"
  using assms cor_valida_iff[of c]
  by (cases w; cases l)
    (simp_all add: aprovavel_def inspecionar_peca_def Peca_init_def Let_def peso_ok_def
      comprimento_ok_def no_intervalo_def maior_def
      PESO_MIN_def PESO_MAX_def COMPRIMENTO_MIN_def COMPRIMENTO_MAX_def)

lemma uma_caixa_init: "uma_caixa SistemaProducao_init []"
  by (simp add: uma_caixa_def SistemaProducao_init_def)

lemma length_mem_pecas:
  assumes "uma_caixa s ps"
  shows "length (mem_pecas s) = length ps"
proof -
  from assms have "map (\<lambda>p. (peso p, cor p, comprimento p)) (mem_pecas s)
      = map (\<lambda>(w, c, l). (w, lower c, l)) ps"
    by (simp add: uma_caixa_def)
  then have "length (map (\<lambda>p. (peso p, cor p, comprimento p)) (mem_pecas s))
      = length (map (\<lambda>(w, c, l). (w, lower c, l)) ps)"
    by (rule arg_cong)
  then show ?thesis by simp
qed

lemma adicionar_peca_com_vaga:
  assumes "\<not> fechada cx" "length (pecas cx) < 10"
  shows "adicionar_peca cx r peca =
     (cx\<lparr>pecas := pecas cx @ [r], fechada := (length (pecas cx) = 9)\<rparr>,
      peca\<lparr>caixa := Some (numero cx)\<rparr>, True)"
proof -
  have "cx\<lparr>pecas := pecas cx @ [r]\<rparr> = cx\<lparr>pecas := pecas cx @ [r], fechada := False\<rparr>"
    using assms(1) by (cases cx) simp
  with assms show ?thesis
    by (simp add: adicionar_peca_def Let_def CAPACIDADE_MAXIMA_def fechar_def)
qed

lemma uma_caixa_passo:
  assumes u: "uma_caixa s ps" and n: "length ps < 10" and a: "aprovavel (w, c, l)"
  shows "\<exists>s'. cadastrar_peca s w c l = (s', length ps, True, None)
           \<and> uma_caixa s' (ps @ [(w, c, l)])"
proof -
  note len = length_mem_pecas[OF u]
  let ?col = "\<lambda>p. (peso p, cor p, comprimento p)"
  let ?peca = "(Peca_init (proximo_id s) w c l)\<lparr>aprovada := True\<rparr>"
  define s3 where "s3 = s\<lparr>todas_pecas := todas_pecas s @ [length (mem_pecas s)],
           proximo_id := proximo_id s + 1,
           mem_pecas := mem_pecas s @ [?peca],
           pecas_aprovadas := pecas_aprovadas s @ [length (mem_pecas s)]\<rparr>"
  have e: "cadastrar_peca s w c l = (armazenar_peca s3 (length ps), length ps, True, None)"
    using cadastrar_peca_aprovada[OF inspecionar_peca_aprova[OF a]] len
    by (simp add: s3_def)
  have s3: "mem_caixas s3 = mem_caixas s" "caixas s3 = caixas s"
    "caixa_atual s3 = caixa_atual s" "todas_pecas s3 = [0..<length ps] @ [length ps]"
    "map ?col (mem_pecas s3) = map (\<lambda>(w, c, l). (w, lower c, l)) (ps @ [(w, c, l)])"
    using u len by (simp_all add: s3_def uma_caixa_def Peca_init_def)
  let ?s' = "armazenar_peca s3 (length ps)"
  have col: "map ?col (mem_pecas ?s') = map (\<lambda>(w, c, l). (w, lower c, l)) (ps @ [(w, c, l)])"
    and tod: "todas_pecas ?s' = [0..<length (ps @ [(w, c, l)])]"
    and cxs: "length (mem_caixas ?s') = 1 \<and> caixas ?s' = [0] \<and> caixa_atual ?s' = Some 0
        \<and> pecas (mem_caixas ?s' ! 0) = [0..<length (ps @ [(w, c, l)])]
        \<and> fechada (mem_caixas ?s' ! 0) = (length (ps @ [(w, c, l)]) = 10)"
  proof -
    show "todas_pecas ?s' = [0..<length (ps @ [(w, c, l)])]"
      using s3(4) by (simp add: armazenar_peca_listas)
  next
    show "map ?col (mem_pecas ?s') = map (\<lambda>(w, c, l). (w, lower c, l)) (ps @ [(w, c, l)])"
    proof (cases s3 rule: armazenar_peca_casos)
      case nova
      show ?thesis
        unfolding armazenar_peca_nova[OF nova] using s3(5)
        by (simp add: map_update_mesmo del: map_append)
    next
      case (atual b)
      obtain cx peca ok where ad:
        "adicionar_peca (mem_caixas s3 ! b) (length ps) (mem_pecas s3 ! length ps) = (cx, peca, ok)"
        by (cases "adicionar_peca (mem_caixas s3 ! b) (length ps) (mem_pecas s3 ! length ps)") auto
      then have "?col peca = ?col (mem_pecas s3 ! length ps)"
        by (auto simp: adicionar_peca_def Let_def split: if_splits)
      then show ?thesis
        unfolding armazenar_peca_atual[OF atual] ad using s3(5)
        by (simp add: map_update_mesmo del: map_append)
    qed
  next
    show "length (mem_caixas ?s') = 1 \<and> caixas ?s' = [0] \<and> caixa_atual ?s' = Some 0
        \<and> pecas (mem_caixas ?s' ! 0) = [0..<length (ps @ [(w, c, l)])]
        \<and> fechada (mem_caixas ?s' ! 0) = (length (ps @ [(w, c, l)]) = 10)"
    proof (cases "ps = []")
      case True
      with u have "precisa_nova_caixa s3"
        by (simp add: precisa_nova_caixa_def s3 uma_caixa_def)
      from armazenar_peca_nova[OF this] True u s3(1,2) show ?thesis
        by (simp add: uma_caixa_def)
    next
      case False
      with u n have nf: "\<not> fechada (mem_caixas s ! 0)" "length (mem_caixas s) = 1"
        "pecas (mem_caixas s ! 0) = [0..<length ps]" "caixas s = [0]" "caixa_atual s = Some 0"
        by (simp_all add: uma_caixa_def)
      with n have at: "caixa_atual s3 = Some 0" "\<not> esta_cheia (mem_caixas s3 ! 0)"
        by (simp_all add: s3 esta_cheia_def CAPACIDADE_MAXIMA_def)
      have ad: "adicionar_peca (mem_caixas s3 ! 0) (length ps) (mem_pecas s3 ! length ps) =
          ((mem_caixas s ! 0)\<lparr>pecas := [0..<length ps] @ [length ps],
                               fechada := (length ps = 9)\<rparr>,
           (mem_pecas s3 ! length ps)\<lparr>caixa := Some (numero (mem_caixas s ! 0))\<rparr>, True)"
        using adicionar_peca_com_vaga[of "mem_caixas s ! 0" "length ps" "mem_pecas s3 ! length ps"]
          nf n by (simp add: s3)
      show ?thesis
        unfolding armazenar_peca_atual[OF at] ad using nf s3(1,2,3)
        by simp
    qed
  qed
  have "uma_caixa ?s' (ps @ [(w, c, l)])"
    unfolding uma_caixa_def using col tod cxs by simp
  with e show ?thesis by simp
qed

lemma uma_caixa_todas:
  assumes "uma_caixa s ps" "length ps + length qs \<le> 10" "list_all aprovavel qs"
  shows "\<exists>s'. cadastrar_todas s qs = (s', [length ps..<length ps + length qs])
           \<and> uma_caixa s' (ps @ qs)"
  using assms
proof (induction qs arbitrary: s ps)
  case Nil
  then show ?case by simp
next
  case (Cons q qs)
  obtain w c l where q: "q = (w, c, l)" by (cases q) auto
  from Cons.prems q have "length ps < 10" "aprovavel (w, c, l)" by simp_all
  from uma_caixa_passo[OF Cons.prems(1) this] obtain s1
    where s1: "cadastrar_peca s w c l = (s1, length ps, True, None)"
      and u1: "uma_caixa s1 (ps @ [(w, c, l)])" by blast
  from Cons.prems have "length (ps @ [(w, c, l)]) + length qs \<le> 10" "list_all aprovavel qs"
    by simp_all
  from Cons.IH[OF u1 this] obtain s' where
    "cadastrar_todas s1 qs = (s', [length (ps @ [(w, c, l)])..<length (ps @ [(w, c, l)]) + length qs])"
    "uma_caixa s' ((ps @ [(w, c, l)]) @ qs)" by blast
  moreover have "[length ps..<length ps + length (q # qs)]
      = length ps # [length (ps @ [(w, c, l)])..<length (ps @ [(w, c, l)]) + length qs]"
    using upt_conv_Cons[of "length ps" "length ps + Suc (length qs)"] by simp
  ultimately show ?case using s1 q by simp
qed


text \<open>
  C2. Register ten parts that all pass, one after the other, on the empty ledger. Then
  there is exactly one box in the sequence, it is closed, and it holds the ten parts
  returned by the registrations, in the order of the registrations; these are the
  parts with the attributes given, in that order. Registering one more passing part
  appends a second box to the sequence, makes it the current box and puts the new part,
  alone, in it; the first box is untouched.
\<close>

theorem dez_aprovadas_fecham_caixa:
  assumes "length ps = 10" "list_all aprovavel ps" "aprovavel (w, c, l)"
  shows "\<exists>s rs s' r.
       cadastrar_todas SistemaProducao_init ps = (s, rs)
     \<and> rs = [0..<10] \<and> todas_pecas s = rs
     \<and> map (\<lambda>r. (peso (mem_pecas s ! r), cor (mem_pecas s ! r), comprimento (mem_pecas s ! r))) rs
         = map (\<lambda>(w, c, l). (w, lower c, l)) ps
     \<and> caixas s = [0] \<and> fechada (mem_caixas s ! 0) \<and> pecas (mem_caixas s ! 0) = rs
     \<and> cadastrar_peca s w c l = (s', r, True, None)
     \<and> r \<notin> set rs
     \<and> caixas s' = [0, 1] \<and> caixa_atual s' = Some 1
     \<and> pecas (mem_caixas s' ! 1) = [r] \<and> \<not> fechada (mem_caixas s' ! 1)
     \<and> mem_caixas s' ! 0 = mem_caixas s ! 0"
proof -
  let ?col = "\<lambda>p. (peso p, cor p, comprimento p)"
  have "\<exists>s'. cadastrar_todas SistemaProducao_init ps
            = (s', [length ([] :: (pyfloat \<times> string \<times> pyfloat) list)..<length ([] :: (pyfloat \<times> string \<times> pyfloat) list) + length ps])
          \<and> uma_caixa s' ([] @ ps)"
    using assms(1,2) by (intro uma_caixa_todas[OF uma_caixa_init]) simp_all
  then obtain s
    where t: "cadastrar_todas SistemaProducao_init ps = (s, [0..<10])"
      and u: "uma_caixa s ps"
    unfolding assms(1) by (simp del: upt_rec_numeral) blast
  note len = length_mem_pecas[OF u]
  from assms(1) have ne: "ps \<noteq> []" by auto
  from u ne have f0: "todas_pecas s = [0..<length ps]" "length (mem_caixas s) = 1"
    "caixas s = [0]" "caixa_atual s = Some 0" "pecas (mem_caixas s ! 0) = [0..<length ps]"
    "fechada (mem_caixas s ! 0) = (length ps = 10)"
    "map ?col (mem_pecas s) = map (\<lambda>(w, c, l). (w, lower c, l)) ps"
    unfolding uma_caixa_def by simp_all
  have f: "todas_pecas s = [0..<10]" "length (mem_caixas s) = 1"
    "caixas s = [0]" "caixa_atual s = Some 0" "pecas (mem_caixas s ! 0) = [0..<10]"
    "fechada (mem_caixas s ! 0)"
    "map ?col (mem_pecas s) = map (\<lambda>(w, c, l). (w, lower c, l)) ps"
    using f0 unfolding assms(1) by blast+
  have "map (\<lambda>r. ?col (mem_pecas s ! r)) [0..<length (mem_pecas s)] = map ?col (mem_pecas s)"
    by (rule nth_equalityI) simp_all
  with f(7) len assms(1)
  have col: "map (\<lambda>r. ?col (mem_pecas s ! r)) [0..<10] = map (\<lambda>(w, c, l). (w, lower c, l)) ps"
    by simp
  let ?peca = "(Peca_init (proximo_id s) w c l)\<lparr>aprovada := True\<rparr>"
  define s3 where "s3 = s\<lparr>todas_pecas := todas_pecas s @ [length (mem_pecas s)],
           proximo_id := proximo_id s + 1,
           mem_pecas := mem_pecas s @ [?peca],
           pecas_aprovadas := pecas_aprovadas s @ [length (mem_pecas s)]\<rparr>"
  have e: "cadastrar_peca s w c l = (armazenar_peca s3 10, 10, True, None)"
    using cadastrar_peca_aprovada[OF inspecionar_peca_aprova[OF assms(3)]] len assms(1)
    by (simp add: s3_def)
  have "precisa_nova_caixa s3"
    using f by (simp add: precisa_nova_caixa_def s3_def esta_cheia_def CAPACIDADE_MAXIMA_def)
  from armazenar_peca_nova[OF this, of 10] f
  have g: "caixas (armazenar_peca s3 10) = [0, 1]" "caixa_atual (armazenar_peca s3 10) = Some 1"
    "pecas (mem_caixas (armazenar_peca s3 10) ! 1) = [10]"
    "\<not> fechada (mem_caixas (armazenar_peca s3 10) ! 1)"
    "mem_caixas (armazenar_peca s3 10) ! 0 = mem_caixas s ! 0"
    by (simp_all add: s3_def nth_append)
  show ?thesis
    using t f(1,3,5,6) col e g by simp
qed

text \<open>Ten parts of 100 g, azul, 15 cm, and an eleventh of 100 g, Verde, 12 cm.\<close>

theorem dez_aprovadas_fecham_caixa_witness:
  "length (replicate 10 (Finito 100, ''azul'', Finito 15)) = 10
   \<and> list_all aprovavel (replicate 10 (Finito 100, ''azul'', Finito 15))
   \<and> aprovavel (Finito 100, ''Verde'', Finito 12)
   \<and> (\<exists>s s' r. cadastrar_todas SistemaProducao_init (replicate 10 (Finito 100, ''azul'', Finito 15))
                  = (s, [0, 1, 2, 3, 4, 5, 6, 7, 8, 9])
         \<and> caixas s = [0] \<and> fechada (mem_caixas s ! 0)
         \<and> pecas (mem_caixas s ! 0) = [0, 1, 2, 3, 4, 5, 6, 7, 8, 9]
         \<and> cadastrar_peca s (Finito 100) ''Verde'' (Finito 12) = (s', r, True, None)
         \<and> caixas s' = [0, 1] \<and> pecas (mem_caixas s' ! 1) = [r])"
proof -
  have h1: "length (replicate 10 (Finito 100, ''azul'', Finito 15)) = 10" by simp
  have h2: "list_all aprovavel (replicate 10 (Finito 100, ''azul'', Finito 15))" by code_simp
  have h3: "aprovavel (Finito 100, ''Verde'', Finito 12)" by code_simp
  have u: "[0..<10] = [0, 1, 2, 3, 4, 5, 6, 7, 8, 9]" by code_simp
  from dez_aprovadas_fecham_caixa[OF h1 h2 h3] obtain s rs s' r where
    "cadastrar_todas SistemaProducao_init (replicate 10 (Finito 100, ''azul'', Finito 15)) = (s, rs)"
    "rs = [0..<10]" "caixas s = [0]" "fechada (mem_caixas s ! 0)" "pecas (mem_caixas s ! 0) = rs"
    "cadastrar_peca s (Finito 100) ''Verde'' (Finito 12) = (s', r, True, None)"
    "caixas s' = [0, 1]" "pecas (mem_caixas s' ! 1) = [r]"
    by blast
  then have "\<exists>s s' r. cadastrar_todas SistemaProducao_init (replicate 10 (Finito 100, ''azul'', Finito 15))
                  = (s, [0, 1, 2, 3, 4, 5, 6, 7, 8, 9])
         \<and> caixas s = [0] \<and> fechada (mem_caixas s ! 0)
         \<and> pecas (mem_caixas s ! 0) = [0, 1, 2, 3, 4, 5, 6, 7, 8, 9]
         \<and> cadastrar_peca s (Finito 100) ''Verde'' (Finito 12) = (s', r, True, None)
         \<and> caixas s' = [0, 1] \<and> pecas (mem_caixas s' ! 1) = [r]"
    unfolding u[symmetric] by blast
  with h1 h2 h3 show ?thesis by blast
qed

subsection \<open>Box numbers\<close>

text \<open>
  C3 fails on the code. \<^verbatim>\<open>_armazenar_peca\<close> numbers a new box
  \<^verbatim>\<open>len(self.caixas) + 1\<close>. Once a box that is not the last one has been deleted, the
  sequence is shorter than the highest number in use, and the next box created takes a
  number that a box of the sequence already carries. After the run below the sequence
  holds the box objects 1 and 2, and both carry the number 2 (the part ids, which come
  from the counter \<^verbatim>\<open>proximo_id\<close>, do not repeat).
\<close>

theorem numero_de_caixa_repetido:
  "(case executar SistemaProducao_init ops_numero_repetido of
      Inl e \<Rightarrow> None
    | Inr (s, ids) \<Rightarrow> Some (caixas s, map (\<lambda>b. numero (mem_caixas s ! b)) (caixas s)))
   = Some ([1, 2], [2, 2])"
  by code_simp

subsection \<open>Batch import\<close>

text \<open>
  C7 fails on the code. The header check compares the field names lower-cased and
  stripped, so a header \<^verbatim>\<open>Peso,Cor,Comprimento\<close> is accepted; the rows are then read
  with the keys \<^verbatim>\<open>'peso'\<close>, \<^verbatim>\<open>'cor'\<close>, \<^verbatim>\<open>'comprimento'\<close> as they are, which such
  a dictionary does not have. Every row raises \<^verbatim>\<open>KeyError\<close> and is reported as a
  missing column; nothing is registered, whatever \<^verbatim>\<open>float\<close> does. With the lowercase
  header the same row is registered and approved.
\<close>

theorem cabecalho_maiusculo:
  "processar_lote_csv conv SistemaProducao_init
      (Some [[''Peso'', ''Cor'', ''Comprimento''], [''100'', ''azul'', ''15'']])
     = (SistemaProducao_init, 0, 0, 0, [Linha 2 (ColunaAusente ''peso'')])
   \<and> processar_lote_csv float_decimal SistemaProducao_init
      (Some [[''peso'', ''cor'', ''comprimento''], [''100'', ''azul'', ''15'']])
     = (ledger_um, 1, 1, 0, [])"
  by code_simp

lemma falha_numerica_ValueError:
  "falha_numerica conv l \<Longrightarrow> extrair_dados conv l = Inl ValueError"
  by (auto simp: falha_numerica_def extrair_dados_def campo_def py_float_def
      split: option.splits)

lemma processar_linha_falha:
  "falha_numerica conv l \<Longrightarrow>
     processar_linha conv n s acc l = (s, acc\<lparr>erros := erros acc @ [Linha n DadosInvalidos]\<rparr>)"
  by (simp add: processar_linha_def falha_numerica_ValueError)

lemma processar_linhas_append:
  "processar_linhas conv n s acc (xs @ ys) =
     (case processar_linhas conv n s acc xs of
        (s1, acc1) \<Rightarrow> processar_linhas conv (n + length xs) s1 acc1 ys)"
  by (induction xs arbitrary: n s acc) (auto split: prod.splits)


lemma processar_lote_csv_linhas:
  assumes "colunas_necessarias \<subseteq> set (map (\<lambda>col. strip (lower col)) fieldnames)"
  shows "processar_lote_csv conv s (Some (fieldnames # rows)) =
     (case processar_linhas conv 2 s lote_vazio
             (map (DictReader_row fieldnames) (filter (\<lambda>row. row \<noteq> []) rows)) of
        (s1, acc) \<Rightarrow> (s1, total_processadas acc, aprovadas acc, reprovadas acc, erros acc))"
  using assms by (simp add: processar_lote_csv_def Let_def)

text \<open>
  C8. Take a file whose header passes the check, and in it a row, not empty, that has
  the three fields and whose weight or length is not a number. Then the import of the
  file is the import of the rows before it, followed by the import of the rows after
  it, started from the ledger and the counters the rows before left, with one message
  added: invalid data, tagged with the number of the row, counting the first record as
  2 (empty rows are skipped by the reader and not counted). No part is registered for
  the row and no counter moves. Moreover a row whose three values are read
  successfully is registered, and the total of processed rows grows by one, as does
  exactly one of the approved and rejected counts, with no message, whatever the
  verdict.
\<close>

theorem linha_com_numero_invalido:
  "(colunas_necessarias \<subseteq> set (map (\<lambda>col. strip (lower col)) fieldnames)
      \<and> row \<noteq> [] \<and> falha_numerica conv (DictReader_row fieldnames row)
    \<longrightarrow> processar_lote_csv conv s (Some (fieldnames # pre @ row # post)) =
        (case processar_linhas conv 2 s lote_vazio
                (map (DictReader_row fieldnames) (filter (\<lambda>r. r \<noteq> []) pre)) of
           (s1, acc1) \<Rightarrow>
             (case processar_linhas conv (3 + length (filter (\<lambda>r. r \<noteq> []) pre)) s1
                     (acc1\<lparr>erros := erros acc1 @
                        [Linha (2 + length (filter (\<lambda>r. r \<noteq> []) pre)) DadosInvalidos]\<rparr>)
                     (map (DictReader_row fieldnames) (filter (\<lambda>r. r \<noteq> []) post)) of
                (s2, acc2) \<Rightarrow>
                  (s2, total_processadas acc2, aprovadas acc2, reprovadas acc2, erros acc2))))
   \<and> (\<forall>w c x. extrair_dados conv l = Inr (w, c, x)
        \<longrightarrow> (case processar_linha conv n s acc l of
               (s', acc') \<Rightarrow>
                 s' = fst (cadastrar_peca s w c x)
               \<and> total_processadas acc' = total_processadas acc + 1
               \<and> aprovadas acc' + reprovadas acc' = aprovadas acc + reprovadas acc + 1
               \<and> erros acc' = erros acc))"
proof (intro conjI impI allI)
  assume a: "colunas_necessarias \<subseteq> set (map (\<lambda>col. strip (lower col)) fieldnames)
      \<and> row \<noteq> [] \<and> falha_numerica conv (DictReader_row fieldnames row)"
  let ?d = "DictReader_row fieldnames"
  let ?pre = "map ?d (filter (\<lambda>r. r \<noteq> []) pre)"
  let ?post = "map ?d (filter (\<lambda>r. r \<noteq> []) post)"
  from a have rows: "map ?d (filter (\<lambda>r. r \<noteq> []) (pre @ row # post)) = ?pre @ ?d row # ?post"
    by simp
  obtain s1 acc1 where p: "processar_linhas conv 2 s lote_vazio ?pre = (s1, acc1)"
    by (cases "processar_linhas conv 2 s lote_vazio ?pre") auto
  have "processar_linhas conv 2 s lote_vazio (?pre @ ?d row # ?post)
      = processar_linhas conv (2 + length ?pre) s1 acc1 (?d row # ?post)"
    by (simp add: processar_linhas_append p)
  also have "\<dots> = processar_linhas conv (3 + length ?pre) s1
      (acc1\<lparr>erros := erros acc1 @ [Linha (2 + length ?pre) DadosInvalidos]\<rparr>) ?post"
    using a by (simp add: processar_linha_falha numeral_3_eq_3)
  finally show "processar_lote_csv conv s (Some (fieldnames # pre @ row # post)) =
        (case processar_linhas conv 2 s lote_vazio ?pre of
           (s1, acc1) \<Rightarrow>
             (case processar_linhas conv (3 + length (filter (\<lambda>r. r \<noteq> []) pre)) s1
                     (acc1\<lparr>erros := erros acc1 @
                        [Linha (2 + length (filter (\<lambda>r. r \<noteq> []) pre)) DadosInvalidos]\<rparr>)
                     ?post of
                (s2, acc2) \<Rightarrow>
                  (s2, total_processadas acc2, aprovadas acc2, reprovadas acc2, erros acc2)))"
    using a p by (simp add: processar_lote_csv_linhas rows del: filter_append map_append)
next
  fix w c x
  assume "extrair_dados conv l = Inr (w, c, x)"
  then show "case processar_linha conv n s acc l of
               (s', acc') \<Rightarrow>
                 s' = fst (cadastrar_peca s w c x)
               \<and> total_processadas acc' = total_processadas acc + 1
               \<and> aprovadas acc' + reprovadas acc' = aprovadas acc + reprovadas acc + 1
               \<and> erros acc' = erros acc"
    by (simp add: processar_linha_def Let_def split: prod.splits)
qed


text \<open>
  A file of three records and an empty row: the second record has the weight
  \<^verbatim>\<open>abc\<close>. Two rows are processed, one approved and one rejected, and the only
  message is for row 3.
\<close>

theorem linha_com_numero_invalido_witness:
  "falha_numerica float_decimal
      (DictReader_row [''peso'', ''cor'', ''comprimento''] [''abc'', ''azul'', ''15''])
   \<and> snd (processar_lote_csv float_decimal SistemaProducao_init
        (Some ([''peso'', ''cor'', ''comprimento'']
           # [[''100'', ''azul'', ''15'']] @ [''abc'', ''azul'', ''15'']
           # [[], [''200'', ''azul'', ''15'']])))
       = (2, 1, 1, [Linha 3 DadosInvalidos])
   \<and> extrair_dados float_decimal
        (DictReader_row [''peso'', ''cor'', ''comprimento''] [''200'', ''azul'', ''15''])
       = Inr (Finito 200, ''azul'', Finito 15)
   \<and> total_processadas (snd (processar_linha float_decimal 2 SistemaProducao_init lote_vazio
        (DictReader_row [''peso'', ''cor'', ''comprimento''] [''200'', ''azul'', ''15'']))) = 1"
proof -
  let ?h = "[''peso'', ''cor'', ''comprimento'']"
  let ?r = "[''abc'', ''azul'', ''15'']"
  let ?l = "DictReader_row ?h [''200'', ''azul'', ''15'']"
  have h1: "colunas_necessarias \<subseteq> set (map (\<lambda>col. strip (lower col)) ?h)"
    by code_simp
  have h2: "falha_numerica float_decimal (DictReader_row ?h ?r)"
    by code_simp
  have h3: "extrair_dados float_decimal ?l = Inr (Finito 200, ''azul'', Finito 15)"
    by code_simp
  note t = linha_com_numero_invalido[where fieldnames = ?h and row = ?r and conv = float_decimal
      and s = SistemaProducao_init and pre = "[[''100'', ''azul'', ''15'']]"
      and post = "[[], [''200'', ''azul'', ''15'']]" and l = ?l and n = 2 and acc = lote_vazio]
  from t h1 h2 have a: "processar_lote_csv float_decimal SistemaProducao_init
        (Some (?h # [[''100'', ''azul'', ''15'']] @ ?r # [[], [''200'', ''azul'', ''15'']])) =
        (case processar_linhas float_decimal 2 SistemaProducao_init lote_vazio
                (map (DictReader_row ?h) (filter (\<lambda>r. r \<noteq> []) [[''100'', ''azul'', ''15'']])) of
           (s1, acc1) \<Rightarrow>
             (case processar_linhas float_decimal
                     (3 + length (filter (\<lambda>r. r \<noteq> []) [[''100'', ''azul'', ''15'']])) s1
                     (acc1\<lparr>erros := erros acc1 @
                        [Linha (2 + length (filter (\<lambda>r. r \<noteq> []) [[''100'', ''azul'', ''15'']]))
                           DadosInvalidos]\<rparr>)
                     (map (DictReader_row ?h) (filter (\<lambda>r. r \<noteq> []) [[], [''200'', ''azul'', ''15'']])) of
                (s2, acc2) \<Rightarrow>
                  (s2, total_processadas acc2, aprovadas acc2, reprovadas acc2, erros acc2)))"
    by blast
  have b: "snd (case processar_linhas float_decimal 2 SistemaProducao_init lote_vazio
                (map (DictReader_row ?h) (filter (\<lambda>r. r \<noteq> []) [[''100'', ''azul'', ''15'']])) of
           (s1, acc1) \<Rightarrow>
             (case processar_linhas float_decimal
                     (3 + length (filter (\<lambda>r. r \<noteq> []) [[''100'', ''azul'', ''15'']])) s1
                     (acc1\<lparr>erros := erros acc1 @
                        [Linha (2 + length (filter (\<lambda>r. r \<noteq> []) [[''100'', ''azul'', ''15'']]))
                           DadosInvalidos]\<rparr>)
                     (map (DictReader_row ?h) (filter (\<lambda>r. r \<noteq> []) [[], [''200'', ''azul'', ''15'']])) of
                (s2, acc2) \<Rightarrow>
                  (s2, total_processadas acc2, aprovadas acc2, reprovadas acc2, erros acc2)))
       = (2, 1, 1, [Linha 3 DadosInvalidos])"
    by code_simp
  have c: "case processar_linha float_decimal 2 SistemaProducao_init lote_vazio ?l of
       (s', acc') \<Rightarrow>
         s' = fst (cadastrar_peca SistemaProducao_init (Finito 200) ''azul'' (Finito 15))
       \<and> total_processadas acc' = total_processadas lote_vazio + 1
       \<and> aprovadas acc' + reprovadas acc' = aprovadas lote_vazio + reprovadas lote_vazio + 1
       \<and> erros acc' = erros lote_vazio"
    by (rule t[THEN conjunct2, rule_format, OF h3])
  then have d: "total_processadas (snd (processar_linha float_decimal 2 SistemaProducao_init
      lote_vazio ?l)) = 1"
    by (simp add: case_prod_beta lote_vazio_def)
  show ?thesis
    using h2 h3 d unfolding a b by simp
qed

end
